theory Spec2Isabelle
  imports Complex_Main "HOL-Library.Sublist"
begin

section \<open>Python values\<close>

text \<open>
  The validator receives each invoice as a \<^verbatim>\<open>Dict[str, Any]\<close>. Its values are modelled by
  \<open>pyval\<close>: none, a number (Python \<^verbatim>\<open>int\<close> or \<^verbatim>\<open>float\<close>), text, a \<^verbatim>\<open>datetime.date\<close>, a list, or a
  nested mapping. A mapping is an association list read with \<open>map_of\<close>.

  Numbers are exact reals: the rounding of IEEE doubles, infinities and NaN are not
  modelled. Text is a list of characters; \<open>strip\<close> and \<open>upper\<close> treat the ASCII range.
\<close>

datatype date = Date (year: nat) (month: nat) (day: nat)

datatype pyval =
    PNone
  | PNum real
  | PStr string
  | PDate date
  | PList "pyval list"
  | PDict "(string \<times> pyval) list"

type_synonym pydict = "(string \<times> pyval) list"

definition dict_get :: "pydict \<Rightarrow> string \<Rightarrow> pyval \<Rightarrow> pyval" where
  "dict_get d k dflt = (case map_of d k of Some v \<Rightarrow> v | None \<Rightarrow> dflt)"

subsection \<open>Text helpers\<close>

definition is_space :: "char \<Rightarrow> bool" where
  "is_space c \<longleftrightarrow>
     c \<in> set [CHR '' '', CHR 0x09, CHR 0x0A, CHR 0x0B, CHR 0x0C, CHR 0x0D,
               CHR 0x1C, CHR 0x1D, CHR 0x1E, CHR 0x1F]"

definition strip :: "string \<Rightarrow> string" where
  "strip s = rev (dropWhile is_space (rev (dropWhile is_space s)))"

definition upper_char :: "char \<Rightarrow> char" where
  "upper_char c =
     (case map_of (zip ''abcdefghijklmnopqrstuvwxyz'' ''ABCDEFGHIJKLMNOPQRSTUVWXYZ'') c of
        Some u \<Rightarrow> u
      | None \<Rightarrow> c)"

definition upper :: "string \<Rightarrow> string" where
  "upper s = map upper_char s"

definition replace_commas :: "string \<Rightarrow> string" where
  \<comment> \<open>\<^verbatim>\<open>s.replace(',', '')\<close>\<close>
  "replace_commas s = filter (\<lambda>c. c \<noteq> CHR '','') s"

definition digit_char :: "nat \<Rightarrow> char" where
  "digit_char n = ''0123456789'' ! (n mod 10)"

fun dec_digits :: "nat \<Rightarrow> string" where
  "dec_digits n =
     (if n < 10 then [digit_char n] else dec_digits (n div 10) @ [digit_char (n mod 10)])"

declare dec_digits.simps [simp del]

definition zero_pad :: "nat \<Rightarrow> string \<Rightarrow> string" where
  "zero_pad w s = replicate (w - length s) (CHR ''0'') @ s"

definition digit_val :: "char \<Rightarrow> nat option" where
  "digit_val c = map_of (zip ''0123456789'' [0, 1, 2, 3, 4, 5, 6, 7, 8, 9]) c"

fun digits_val :: "nat \<Rightarrow> string \<Rightarrow> nat option" where
  "digits_val acc [] = Some acc"
| "digits_val acc (c # cs) =
     (case digit_val c of None \<Rightarrow> None | Some v \<Rightarrow> digits_val (10 * acc + v) cs)"

subsection \<open>Calendar dates\<close>

text \<open>
  \<^verbatim>\<open>datetime.date\<close> orders dates as the triples (year, month, day), and \<^verbatim>\<open>str(date)\<close> is the
  ISO form \<^verbatim>\<open>YYYY-MM-DD\<close>. A date field given as text is read in that form.
\<close>

definition date_less :: "date \<Rightarrow> date \<Rightarrow> bool" where
  "date_less a b \<longleftrightarrow>
     year a < year b \<or>
     (year a = year b \<and> (month a < month b \<or> (month a = month b \<and> day a < day b)))"

definition isoformat :: "date \<Rightarrow> string" where
  "isoformat d =
     zero_pad 4 (dec_digits (year d)) @ ''-'' @ zero_pad 2 (dec_digits (month d)) @ ''-'' @
     zero_pad 2 (dec_digits (day d))"

definition is_leap :: "nat \<Rightarrow> bool" where
  "is_leap y \<longleftrightarrow> y mod 4 = 0 \<and> (y mod 100 \<noteq> 0 \<or> y mod 400 = 0)"

definition days_in_month :: "nat \<Rightarrow> nat \<Rightarrow> nat" where
  "days_in_month y m =
     (if m = 2 then (if is_leap y then 29 else 28)
      else if m = 4 \<or> m = 6 \<or> m = 9 \<or> m = 11 then 30 else 31)"

definition valid_date :: "nat \<Rightarrow> nat \<Rightarrow> nat \<Rightarrow> bool" where
  "valid_date y m d \<longleftrightarrow>
     1 \<le> y \<and> y \<le> 9999 \<and> 1 \<le> m \<and> m \<le> 12 \<and> 1 \<le> d \<and> d \<le> days_in_month y m"

definition date_fromisoformat :: "string \<Rightarrow> date option" where
  "date_fromisoformat s =
     (if length s = 10 \<and> s ! 4 = CHR ''-'' \<and> s ! 7 = CHR ''-'' then
        (case (digits_val 0 (take 4 s), digits_val 0 (take 2 (drop 5 s)),
               digits_val 0 (drop 8 s)) of
           (Some y, Some m, Some d) \<Rightarrow> if valid_date y m d then Some (Date y m d) else None
         | _ \<Rightarrow> None)
      else None)"

subsection \<open>Fixed-point formatting\<close>

text \<open>The format \<^verbatim>\<open>{x:.2f}\<close>: the sign, then the magnitude rounded to hundredths, ties to even.\<close>

definition round_half_even :: "real \<Rightarrow> int" where
  "round_half_even x =
     (let f = \<lfloor>x\<rfloor>; r = x - of_int f
      in if r < 1 / 2 then f else if 1 / 2 < r then f + 1 else if even f then f else f + 1)"

definition format_2f :: "real \<Rightarrow> string" where
  "format_2f x =
     (let n = nat (round_half_even (\<bar>x\<bar> * 100))
      in (if x < 0 then ''-'' else '''') @ dec_digits (n div 100) @ ''.'' @
         [digit_char (n mod 100 div 10), digit_char (n mod 10)])"

definition str_opt_date :: "date option \<Rightarrow> string" where
  \<comment> \<open>what an f-string prints for an optional date\<close>
  "str_opt_date d = (case d of None \<Rightarrow> ''None'' | Some x \<Rightarrow> isoformat x)"

section \<open>The schema (schema.py)\<close>

text \<open>
  \<^verbatim>\<open>LineItem\<close> and \<^verbatim>\<open>Invoice\<close> are pydantic models. Constructing one either returns the object or
  raises a validation error; the model returns \<open>Inl\<close> of the error or \<open>Inr\<close> of the object.
  The declarations of the source are followed field by field, in their order: a required
  field (\<^verbatim>\<open>Field(...)\<close>), \<^verbatim>\<open>min_length=1\<close>, \<^verbatim>\<open>ge=0\<close>, the currency validator, and the two
  validators that run after the fields.

  The library reports every failing field in one exception; the model keeps the first
  one, which decides the same success or failure. The library also coerces values (a
  number written as text, a timestamp for a date); here a text field takes text, a number
  field takes a number, and a date field takes a date or ISO text. The invoice date of the
  object is kept as an optional date, since the rules below test it against none.
\<close>

datatype validation_error =
    Field_required string
  | Wrong_type string
  | String_too_short string
  | Not_ge_zero string
  | Currency_not_allowed string
  | Line_total_mismatch real real
  | Due_date_before date date

fun error_text :: "validation_error \<Rightarrow> string" where
  \<comment> \<open>stands for \<^verbatim>\<open>str(e)\<close>, whose exact wording is the library's\<close>
  "error_text (Field_required f) = f @ '': Field required''"
| "error_text (Wrong_type f) = f @ '': Input should be a valid value''"
| "error_text (String_too_short f) = f @ '': String should have at least 1 character''"
| "error_text (Not_ge_zero f) = f @ '': Input should be greater than or equal to 0''"
| "error_text (Currency_not_allowed v) =
     ''Value error, Currency must be one of EUR, USD, INR, got '' @ v"
| "error_text (Line_total_mismatch t e) =
     ''Value error, line_total '' @ format_2f t @
     '' does not match quantity * unit_price ('' @ format_2f e @ '')''"
| "error_text (Due_date_before d i) =
     ''Value error, due_date '' @ isoformat d @ '' must be >= invoice_date '' @ isoformat i"

fun sum_bind :: "'err + 'a \<Rightarrow> ('a \<Rightarrow> 'err + 'r) \<Rightarrow> 'err + 'r" where
  "sum_bind (Inl e) f = Inl e"
| "sum_bind (Inr v) f = f v"

record LineItem =
  description :: string
  quantity :: real
  unit_price :: real
  line_total :: real

record Invoice =
  invoice_number :: string
  invoice_date :: "date option"
  due_date :: "date option"
  seller_name :: string
  seller_address :: "string option"
  seller_tax_id :: "string option"
  buyer_name :: string
  buyer_address :: "string option"
  buyer_tax_id :: "string option"
  currency :: string
  net_total :: real
  tax_amount :: real
  gross_total :: real
  line_items :: "LineItem list"

subsection \<open>Fields\<close>

definition str_field :: "pydict \<Rightarrow> string \<Rightarrow> validation_error + string" where
  "str_field d k =
     (case map_of d k of
        None \<Rightarrow> Inl (Field_required k)
      | Some (PStr s) \<Rightarrow> Inr s
      | Some _ \<Rightarrow> Inl (Wrong_type k))"

definition str_field_min1 :: "pydict \<Rightarrow> string \<Rightarrow> validation_error + string" where
  "str_field_min1 d k =
     sum_bind (str_field d k) (\<lambda>s. if length s < 1 then Inl (String_too_short k) else Inr s)"

definition opt_str_field :: "pydict \<Rightarrow> string \<Rightarrow> validation_error + string option" where
  "opt_str_field d k =
     (case map_of d k of
        None \<Rightarrow> Inr None
      | Some PNone \<Rightarrow> Inr None
      | Some (PStr s) \<Rightarrow> Inr (Some s)
      | Some _ \<Rightarrow> Inl (Wrong_type k))"

definition float_field_ge0 :: "pydict \<Rightarrow> string \<Rightarrow> validation_error + real" where
  "float_field_ge0 d k =
     (case map_of d k of
        None \<Rightarrow> Inl (Field_required k)
      | Some (PNum x) \<Rightarrow> if 0 \<le> x then Inr x else Inl (Not_ge_zero k)
      | Some _ \<Rightarrow> Inl (Wrong_type k))"

definition as_date :: "pyval \<Rightarrow> date option" where
  "as_date v = (case v of PDate d \<Rightarrow> Some d | PStr s \<Rightarrow> date_fromisoformat s | _ \<Rightarrow> None)"

definition date_field :: "pydict \<Rightarrow> string \<Rightarrow> validation_error + date" where
  "date_field d k =
     (case map_of d k of
        None \<Rightarrow> Inl (Field_required k)
      | Some v \<Rightarrow> (case as_date v of None \<Rightarrow> Inl (Wrong_type k) | Some x \<Rightarrow> Inr x))"

definition opt_date_field :: "pydict \<Rightarrow> string \<Rightarrow> validation_error + date option" where
  "opt_date_field d k =
     (case map_of d k of
        None \<Rightarrow> Inr None
      | Some PNone \<Rightarrow> Inr None
      | Some v \<Rightarrow> (case as_date v of None \<Rightarrow> Inl (Wrong_type k) | Some x \<Rightarrow> Inr (Some x)))"

subsection \<open>LineItem\<close>

definition validate_line_total :: "LineItem \<Rightarrow> validation_error + LineItem" where
  "validate_line_total self =
     (let expected = quantity self * unit_price self
      in if \<bar>line_total self - expected\<bar> > 0.01
         then Inl (Line_total_mismatch (line_total self) expected)
         else Inr self)"

definition LineItem_new :: "pydict \<Rightarrow> validation_error + LineItem" where
  "LineItem_new d =
     sum_bind (str_field d ''description'') (\<lambda>dsc.
     sum_bind (float_field_ge0 d ''quantity'') (\<lambda>q.
     sum_bind (float_field_ge0 d ''unit_price'') (\<lambda>p.
     sum_bind (float_field_ge0 d ''line_total'') (\<lambda>t.
     validate_line_total
       \<lparr>description = dsc, quantity = q, unit_price = p, line_total = t\<rparr>))))"

subsection \<open>Invoice\<close>

fun line_items_of :: "pyval list \<Rightarrow> validation_error + LineItem list" where
  "line_items_of [] = Inr []"
| "line_items_of (v # vs) =
     (case v of
        PDict d \<Rightarrow>
          sum_bind (LineItem_new d) (\<lambda>x.
          sum_bind (line_items_of vs) (\<lambda>xs. Inr (x # xs)))
      | _ \<Rightarrow> Inl (Wrong_type ''line_items''))"

definition line_items_field :: "pydict \<Rightarrow> validation_error + LineItem list" where
  \<comment> \<open>\<^verbatim>\<open>default_factory=list\<close>: an absent field is the empty list\<close>
  "line_items_field d =
     (case map_of d ''line_items'' of
        None \<Rightarrow> Inr []
      | Some (PList vs) \<Rightarrow> line_items_of vs
      | Some _ \<Rightarrow> Inl (Wrong_type ''line_items''))"

definition validate_currency :: "string \<Rightarrow> validation_error + string" where
  "validate_currency v =
     (if upper v \<notin> {''EUR'', ''USD'', ''INR''} then Inl (Currency_not_allowed v)
      else Inr (upper v))"

definition validate_due_date :: "Invoice \<Rightarrow> validation_error + Invoice" where
  "validate_due_date self =
     (case (due_date self, invoice_date self) of
        (Some dd, Some idt) \<Rightarrow>
          if date_less dd idt then Inl (Due_date_before dd idt) else Inr self
      | _ \<Rightarrow> Inr self)"

definition Invoice_new :: "pydict \<Rightarrow> validation_error + Invoice" where
  "Invoice_new d =
     sum_bind (str_field_min1 d ''invoice_number'') (\<lambda>a_number.
     sum_bind (date_field d ''invoice_date'') (\<lambda>a_date.
     sum_bind (opt_date_field d ''due_date'') (\<lambda>a_due.
     sum_bind (str_field_min1 d ''seller_name'') (\<lambda>a_seller.
     sum_bind (opt_str_field d ''seller_address'') (\<lambda>a_seller_address.
     sum_bind (opt_str_field d ''seller_tax_id'') (\<lambda>a_seller_tax_id.
     sum_bind (str_field_min1 d ''buyer_name'') (\<lambda>a_buyer.
     sum_bind (opt_str_field d ''buyer_address'') (\<lambda>a_buyer_address.
     sum_bind (opt_str_field d ''buyer_tax_id'') (\<lambda>a_buyer_tax_id.
     sum_bind (sum_bind (str_field d ''currency'') validate_currency) (\<lambda>a_currency.
     sum_bind (float_field_ge0 d ''net_total'') (\<lambda>a_net.
     sum_bind (float_field_ge0 d ''tax_amount'') (\<lambda>a_tax.
     sum_bind (float_field_ge0 d ''gross_total'') (\<lambda>a_gross.
     sum_bind (line_items_field d) (\<lambda>a_items.
     validate_due_date
       \<lparr>invoice_number = a_number, invoice_date = Some a_date, due_date = a_due,
        seller_name = a_seller, seller_address = a_seller_address,
        seller_tax_id = a_seller_tax_id, buyer_name = a_buyer,
        buyer_address = a_buyer_address, buyer_tax_id = a_buyer_tax_id,
        currency = a_currency, net_total = a_net, tax_amount = a_tax,
        gross_total = a_gross, line_items = a_items\<rparr>))))))))))))))"

section \<open>The validator (validator.py)\<close>

text \<open>
  An \<^verbatim>\<open>InvoiceValidator\<close> object holds one attribute, the set of duplicate keys seen so far.
  A method that mutates it takes the object and returns it updated.
\<close>

type_synonym duplicate_key = "string \<times> string \<times> string option"

record InvoiceValidator =
  seen_invoices :: "duplicate_key set"

record validation_result =
  invoice_id :: pyval
  is_valid :: bool
  errors :: "string list"

definition validate_completeness :: "Invoice \<Rightarrow> string list" where
  "validate_completeness invoice =
     (if invoice_number invoice = [] \<or> length (strip (invoice_number invoice)) = 0
      then [''missing_field: invoice_number''] else []) @
     (if invoice_date invoice = None then [''missing_field: invoice_date''] else []) @
     (if seller_name invoice = [] \<or> length (strip (seller_name invoice)) = 0
      then [''missing_field: seller_name''] else []) @
     (if buyer_name invoice = [] \<or> length (strip (buyer_name invoice)) = 0
      then [''missing_field: buyer_name''] else [])"

definition validate_format :: "Invoice \<Rightarrow> string list" where
  "validate_format invoice =
     (if net_total invoice < 0 then [''format_error: net_total must be >= 0''] else []) @
     (if tax_amount invoice < 0 then [''format_error: tax_amount must be >= 0''] else []) @
     (if gross_total invoice < 0 then [''format_error: gross_total must be >= 0''] else [])"

definition tolerance :: real where
  "tolerance = 0.01"

definition totals_mismatch_error :: "real \<Rightarrow> real \<Rightarrow> string" where
  "totals_mismatch_error line_items_sum net =
     ''business_rule_failed: totals_mismatch '' @
     ''(line_items_sum='' @ format_2f line_items_sum @ '', net_total='' @ format_2f net @ '')''"

definition gross_total_mismatch_error :: "real \<Rightarrow> real \<Rightarrow> string" where
  "gross_total_mismatch_error expected_gross gross =
     ''business_rule_failed: gross_total_mismatch '' @
     ''(expected='' @ format_2f expected_gross @ '', actual='' @ format_2f gross @ '')''"

definition due_date_error :: "date \<Rightarrow> date \<Rightarrow> string" where
  "due_date_error dd idt =
     ''business_rule_failed: due_date_before_invoice_date '' @
     ''(due_date='' @ isoformat dd @ '', invoice_date='' @ isoformat idt @ '')''"

definition validate_business_rules :: "Invoice \<Rightarrow> string list" where
  "validate_business_rules invoice =
     (let line_items_sum = sum_list (map line_total (line_items invoice));
          expected_gross = net_total invoice + tax_amount invoice
      in (if \<bar>line_items_sum - net_total invoice\<bar> > tolerance
          then [totals_mismatch_error line_items_sum (net_total invoice)] else []) @
         (if \<bar>expected_gross - gross_total invoice\<bar> > tolerance
          then [gross_total_mismatch_error expected_gross (gross_total invoice)] else []) @
         (case (due_date invoice, invoice_date invoice) of
            (Some dd, Some idt) \<Rightarrow> if date_less dd idt then [due_date_error dd idt] else []
          | _ \<Rightarrow> []))"

definition duplicate_key_of :: "Invoice \<Rightarrow> duplicate_key" where
  "duplicate_key_of invoice =
     (invoice_number invoice, seller_name invoice,
      (case invoice_date invoice of None \<Rightarrow> None | Some d \<Rightarrow> Some (isoformat d)))"

definition duplicate_error :: "Invoice \<Rightarrow> string" where
  "duplicate_error invoice =
     ''anomaly_detected: duplicate_invoice '' @
     ''(invoice_number='' @ invoice_number invoice @ '', '' @
     ''seller='' @ seller_name invoice @ '', date='' @ str_opt_date (invoice_date invoice) @ '')''"

definition validate_anomalies ::
  "InvoiceValidator \<Rightarrow> Invoice \<Rightarrow> pyval \<Rightarrow> InvoiceValidator \<times> string list" where
  "validate_anomalies self invoice inv_id =
     (let duplicate_key = duplicate_key_of invoice
      in if duplicate_key \<in> seen_invoices self then (self, [duplicate_error invoice])
         else (self\<lparr>seen_invoices := insert duplicate_key (seen_invoices self)\<rparr>, []))"

definition validate ::
  "InvoiceValidator \<Rightarrow> pydict \<Rightarrow> InvoiceValidator \<times> validation_result" where
  "validate self invoice_data =
     (let inv_id =
            dict_get invoice_data ''invoice_id''
              (dict_get invoice_data ''invoice_number'' (PStr ''unknown''))
      in case Invoice_new invoice_data of
           Inl e \<Rightarrow>
             (self,
              \<lparr>invoice_id = inv_id, is_valid = False,
               errors = [''schema_error: '' @ error_text e]\<rparr>)
         | Inr invoice \<Rightarrow>
             (let errs0 = validate_completeness invoice @ validate_format invoice @
                          validate_business_rules invoice;
                  (self', anomalies) = validate_anomalies self invoice inv_id;
                  errs = errs0 @ anomalies
              in (self', \<lparr>invoice_id = inv_id, is_valid = (length errs = 0), errors = errs\<rparr>)))"

definition reset_duplicate_tracking :: "InvoiceValidator \<Rightarrow> InvoiceValidator" where
  "reset_duplicate_tracking self = self\<lparr>seen_invoices := {}\<rparr>"

subsection \<open>Batches\<close>

text \<open>
  \<^verbatim>\<open>collections.Counter\<close> is a dictionary of counts that keeps the order in which keys were
  first counted: an association list with one entry per key.
\<close>

type_synonym counter = "(string \<times> nat) list"

definition counter_incr :: "counter \<Rightarrow> string \<Rightarrow> counter" where
  "counter_incr c k =
     (if k \<in> fst ` set c then map (\<lambda>(k', n). if k' = k then (k', n + 1) else (k', n)) c
      else c @ [(k, 1)])"

definition error_type_of :: "string \<Rightarrow> string" where
  \<comment> \<open>\<^verbatim>\<open>error.split(":")[0] if ":" in error else "unknown"\<close>\<close>
  "error_type_of error =
     (if CHR '':'' \<in> set error then takeWhile (\<lambda>c. c \<noteq> CHR '':'') error else ''unknown'')"

record batch_summary =
  total_invoices :: nat
  valid_invoices :: nat
  invalid_invoices :: nat
  error_counts :: counter

record batch_report =
  results :: "validation_result list"
  summary :: batch_summary

fun batch_loop ::
  "InvoiceValidator \<Rightarrow> pydict list \<Rightarrow> validation_result list \<Rightarrow> counter \<Rightarrow>
   InvoiceValidator \<times> validation_result list \<times> counter" where
  "batch_loop self [] rs ec = (self, rs, ec)"
| "batch_loop self (invoice_data # rest) rs ec =
     (let (self', result) = validate self invoice_data;
          rs' = rs @ [result];
          ec' = foldl (\<lambda>c error. counter_incr c (error_type_of error)) ec (errors result)
      in batch_loop self' rest rs' ec')"

definition validate_batch ::
  "InvoiceValidator \<Rightarrow> pydict list \<Rightarrow> InvoiceValidator \<times> batch_report" where
  "validate_batch self invoices =
     (let (self', rs, ec) = batch_loop (self\<lparr>seen_invoices := {}\<rparr>) invoices [] [];
          valid_count = length (filter is_valid rs);
          invalid_count = length rs - valid_count
      in (self',
          \<lparr>results = rs,
           summary = \<lparr>total_invoices = length invoices, valid_invoices = valid_count,
                      invalid_invoices = invalid_count, error_counts = ec\<rparr>\<rparr>))"

section \<open>The field extractors (utils/patterns.py)\<close>

text \<open>
  The extractors search the text with compiled regular expressions. What a regular
  expression matches is decided by the \<^verbatim>\<open>re\<close> library; the model takes each compiled pattern
  as its \<^verbatim>\<open>search\<close> function, which returns nothing or a match object. A match object
  holds its capture groups, numbered from 1 (a group that took no part in the match is
  none), and the offset at which the match ends. \<^verbatim>\<open>match.group(1)\<close> raises \<^verbatim>\<open>IndexError\<close> when
  the pattern has no group, and calling a text method on a group that is none raises
  \<^verbatim>\<open>AttributeError\<close>; neither is caught by the extractors.

  The module-level pattern lists are the fields of \<open>regex_tables\<close>, under their names in
  the source. The row pattern of the line items is used through \<^verbatim>\<open>findall\<close> only, which
  returns one tuple of group texts per match.

  Two library functions are parameters as well: \<^verbatim>\<open>float(s)\<close>, which returns a number or
  raises \<^verbatim>\<open>ValueError\<close> (none here), and the date parser of \<^verbatim>\<open>dateutil\<close>, which returns a date
  or raises.
\<close>

datatype py_error = IndexError | AttributeError | ValueError | TypeError | OverflowError

datatype re_match = Match (groups: "string option list") (match_end: nat)

type_synonym pattern = "string \<Rightarrow> re_match option"

record regex_tables =
  INVOICE_NUMBER_PATTERNS :: "pattern list"
  DATE_PATTERNS :: "pattern list"
  DUE_DATE_PATTERNS :: "pattern list"
  SELLER_PATTERNS :: "pattern list"
  BUYER_PATTERNS :: "pattern list"
  ADDRESS_PATTERNS :: "pattern list"
  TAX_ID_PATTERNS :: "pattern list"
  CURRENCY_PATTERNS :: "pattern list"
  AMOUNT_PATTERNS :: "pattern list"
  NET_TOTAL_PATTERNS :: "pattern list"
  TAX_AMOUNT_PATTERNS :: "pattern list"
  GROSS_TOTAL_PATTERNS :: "pattern list"
  table_pattern :: pattern
  line_item_findall :: "string \<Rightarrow> string list list"

record builtins =
  py_float :: "string \<Rightarrow> real option"
  dateutil_parse :: "string \<Rightarrow> py_error + date"

definition group1 :: "re_match \<Rightarrow> py_error + string" where
  \<comment> \<open>\<^verbatim>\<open>match.group(1)\<close>, about to receive a text method\<close>
  "group1 m =
     (case groups m of
        [] \<Rightarrow> Inl IndexError
      | None # _ \<Rightarrow> Inl AttributeError
      | Some s # _ \<Rightarrow> Inr s)"

text \<open>
  The loop shared by the extractors of single fields: the first pattern that matches
  decides, and its first group is returned stripped.
\<close>

fun first_group :: "pattern list \<Rightarrow> string \<Rightarrow> py_error + string option" where
  "first_group [] text = Inr None"
| "first_group (p # ps) text =
     (case p text of
        None \<Rightarrow> first_group ps text
      | Some m \<Rightarrow> sum_bind (group1 m) (\<lambda>s. Inr (Some (strip s))))"

definition extract_invoice_number :: "regex_tables \<Rightarrow> string \<Rightarrow> py_error + string option" where
  "extract_invoice_number P text = first_group (INVOICE_NUMBER_PATTERNS P) text"

definition extract_date ::
  "regex_tables \<Rightarrow> string \<Rightarrow> pattern list option \<Rightarrow> py_error + string option" where
  "extract_date P text patterns =
     first_group (case patterns of None \<Rightarrow> DATE_PATTERNS P | Some ps \<Rightarrow> ps) text"

definition extract_due_date :: "regex_tables \<Rightarrow> string \<Rightarrow> py_error + string option" where
  "extract_due_date P text = extract_date P text (Some (DUE_DATE_PATTERNS P))"

definition extract_seller_name :: "regex_tables \<Rightarrow> string \<Rightarrow> py_error + string option" where
  "extract_seller_name P text = first_group (SELLER_PATTERNS P) text"

definition extract_buyer_name :: "regex_tables \<Rightarrow> string \<Rightarrow> py_error + string option" where
  "extract_buyer_name P text = first_group (BUYER_PATTERNS P) text"

definition extract_address :: "regex_tables \<Rightarrow> string \<Rightarrow> py_error + string option" where
  "extract_address P text = first_group (ADDRESS_PATTERNS P) text"

definition extract_tax_id :: "regex_tables \<Rightarrow> string \<Rightarrow> py_error + string option" where
  "extract_tax_id P text = first_group (TAX_ID_PATTERNS P) text"

definition currency_code :: "string \<Rightarrow> string" where
  \<comment> \<open>the euro and rupee signs are their UTF-8 bytes\<close>
  "currency_code cur =
     (if cur = [CHR 0xE2, CHR 0x82, CHR 0xAC] then ''EUR''
      else if cur = ''$'' then ''USD''
      else if cur = [CHR 0xE2, CHR 0x82, CHR 0xB9] then ''INR''
      else upper cur)"

definition extract_currency :: "regex_tables \<Rightarrow> string \<Rightarrow> py_error + string option" where
  "extract_currency P text =
     sum_bind (first_group (CURRENCY_PATTERNS P) text) (\<lambda>r.
       Inr (case r of None \<Rightarrow> None | Some cur \<Rightarrow> Some (currency_code cur)))"

fun amount_loop :: "builtins \<Rightarrow> pattern list \<Rightarrow> string \<Rightarrow> py_error + real option" where
  "amount_loop B [] text = Inr None"
| "amount_loop B (p # ps) text =
     (case p text of
        None \<Rightarrow> amount_loop B ps text
      | Some m \<Rightarrow>
          sum_bind (group1 m) (\<lambda>s.
            let amount_str = replace_commas s
            in case py_float B amount_str of
                 Some v \<Rightarrow> Inr (Some v)
               | None \<Rightarrow> amount_loop B ps text))"

definition extract_amount ::
  "regex_tables \<Rightarrow> builtins \<Rightarrow> string \<Rightarrow> pattern list option \<Rightarrow> py_error + real option" where
  "extract_amount P B text patterns =
     amount_loop B (case patterns of None \<Rightarrow> AMOUNT_PATTERNS P | Some ps \<Rightarrow> ps) text"

definition extract_net_total ::
  "regex_tables \<Rightarrow> builtins \<Rightarrow> string \<Rightarrow> py_error + real option" where
  "extract_net_total P B text = extract_amount P B text (Some (NET_TOTAL_PATTERNS P))"

definition extract_tax_amount ::
  "regex_tables \<Rightarrow> builtins \<Rightarrow> string \<Rightarrow> py_error + real option" where
  "extract_tax_amount P B text = extract_amount P B text (Some (TAX_AMOUNT_PATTERNS P))"

definition extract_gross_total ::
  "regex_tables \<Rightarrow> builtins \<Rightarrow> string \<Rightarrow> py_error + real option" where
  "extract_gross_total P B text = extract_amount P B text (Some (GROSS_TOTAL_PATTERNS P))"

text \<open>
  One row of the line-item table. An index out of range and a failing \<^verbatim>\<open>float\<close> are both
  caught by the loop, which goes on to the next row; so is a row the filter rejects. The
  fallback pass asks for a description of more than two characters.
\<close>

definition parse_row :: "builtins \<Rightarrow> bool \<Rightarrow> string list \<Rightarrow> pydict option" where
  "parse_row B fallback row =
     (if length row < 4 then None
      else
        let dsc = strip (row ! 0)
        in case py_float B (replace_commas (row ! 1)) of
             None \<Rightarrow> None
           | Some q \<Rightarrow>
               (case py_float B (replace_commas (row ! 2)) of
                  None \<Rightarrow> None
                | Some p \<Rightarrow>
                    (case py_float B (replace_commas (row ! 3)) of
                       None \<Rightarrow> None
                     | Some t \<Rightarrow>
                         if (if fallback then dsc \<noteq> [] \<and> length dsc > 2 \<and> q > 0
                             else dsc \<noteq> [] \<and> q > 0)
                         then Some [(''description'', PStr dsc), (''quantity'', PNum q),
                                    (''unit_price'', PNum p), (''line_total'', PNum t)]
                         else None)))"

definition extract_line_items :: "regex_tables \<Rightarrow> builtins \<Rightarrow> string \<Rightarrow> pydict list" where
  "extract_line_items P B text =
     (let line_items =
            (case table_pattern P text of
               None \<Rightarrow> []
             | Some table_match \<Rightarrow>
                 let table_text = drop (match_end table_match) text;
                     rows = line_item_findall P table_text
                 in List.map_filter (parse_row B False) (take 10 rows))
      in if line_items = []
         then List.map_filter (parse_row B True) (take 10 (line_item_findall P text))
         else line_items)"

section \<open>The record assembler (extractor.py)\<close>

definition parse_date :: "builtins \<Rightarrow> string \<Rightarrow> py_error + string option" where
  \<comment> \<open>only \<^verbatim>\<open>ValueError\<close> and \<^verbatim>\<open>TypeError\<close> are caught\<close>
  "parse_date B date_str =
     (if date_str = [] then Inr None
      else case dateutil_parse B date_str of
             Inr date_obj \<Rightarrow> Inr (Some (isoformat date_obj))
           | Inl ValueError \<Rightarrow> Inr None
           | Inl TypeError \<Rightarrow> Inr None
           | Inl e \<Rightarrow> Inl e)"

definition str_or :: "string option \<Rightarrow> string \<Rightarrow> string" where
  \<comment> \<open>\<^verbatim>\<open>x or d\<close> for an optional text: none and the empty text are both false\<close>
  "str_or x d = (case x of None \<Rightarrow> d | Some s \<Rightarrow> if s = [] then d else s)"

definition float_or_zero :: "real option \<Rightarrow> real" where
  \<comment> \<open>\<^verbatim>\<open>x or 0.0\<close>\<close>
  "float_or_zero x = (case x of None \<Rightarrow> 0 | Some v \<Rightarrow> if v = 0 then 0 else v)"

definition parse_date_if :: "builtins \<Rightarrow> string option \<Rightarrow> py_error + pyval" where
  \<comment> \<open>\<^verbatim>\<open>parse_date(s) if s else None\<close>, as a value of the record\<close>
  "parse_date_if B date_str =
     (case date_str of
        None \<Rightarrow> Inr PNone
      | Some s \<Rightarrow>
          if s = [] then Inr PNone
          else sum_bind (parse_date B s) (\<lambda>r.
                 Inr (case r of None \<Rightarrow> PNone | Some iso_text \<Rightarrow> PStr iso_text)))"

definition opt_str_val :: "string option \<Rightarrow> pyval" where
  "opt_str_val x = (case x of None \<Rightarrow> PNone | Some s \<Rightarrow> PStr s)"

definition assemble_item :: "pydict \<Rightarrow> pyval" where
  "assemble_item item =
     PDict [(''description'', dict_get item ''description'' (PStr '''')),
            (''quantity'', dict_get item ''quantity'' (PNum 0)),
            (''unit_price'', dict_get item ''unit_price'' (PNum 0)),
            (''line_total'', dict_get item ''line_total'' (PNum 0))]"

definition extract_invoice_from_text ::
  "regex_tables \<Rightarrow> builtins \<Rightarrow> string \<Rightarrow> string option \<Rightarrow> py_error + pydict" where
  "extract_invoice_from_text P B text inv_id =
     sum_bind (extract_invoice_number P text) (\<lambda>number.
     sum_bind (extract_date P text None) (\<lambda>invoice_date_str.
     sum_bind (extract_due_date P text) (\<lambda>due_date_str.
     sum_bind (extract_seller_name P text) (\<lambda>seller.
     sum_bind (extract_buyer_name P text) (\<lambda>buyer.
     sum_bind (extract_address P text) (\<lambda>seller_addr.
     sum_bind (extract_tax_id P text) (\<lambda>seller_tax.
     sum_bind (extract_currency P text) (\<lambda>cur.
     sum_bind (extract_net_total P B text) (\<lambda>net.
     sum_bind (extract_tax_amount P B text) (\<lambda>tax.
     sum_bind (extract_gross_total P B text) (\<lambda>gross.
     let items = map assemble_item (extract_line_items P B text)
     in sum_bind (parse_date_if B invoice_date_str) (\<lambda>inv_date.
        sum_bind (parse_date_if B due_date_str) (\<lambda>due.
        let invoice_data =
              [(''invoice_number'', PStr (str_or number ''UNKNOWN'')),
               (''invoice_date'', inv_date),
               (''due_date'', due),
               (''seller_name'', PStr (str_or seller '''')),
               (''seller_address'', opt_str_val seller_addr),
               (''seller_tax_id'', opt_str_val seller_tax),
               (''buyer_name'', PStr (str_or buyer '''')),
               (''buyer_address'', PNone),
               (''buyer_tax_id'', PNone),
               (''currency'', PStr (str_or cur ''USD'')),
               (''net_total'', PNum (float_or_zero net)),
               (''tax_amount'', PNum (float_or_zero tax)),
               (''gross_total'', PNum (float_or_zero gross)),
               (''line_items'', PList items)]
        in Inr (case inv_id of
                  None \<Rightarrow> invoice_data
                | Some i \<Rightarrow>
                    if i = [] then invoice_data
                    else invoice_data @ [(''invoice_id'', PStr i)]))))))))))))))"

text \<open>
  What the assembler relies on in the libraries. Every pattern of the module has one
  capture group that takes part in each of its matches; \<open>patterns_capture\<close> says so of a
  pattern list on a text. The date parser is documented to raise \<^verbatim>\<open>ValueError\<close> (its
  \<^verbatim>\<open>ParserError\<close>), \<^verbatim>\<open>TypeError\<close> and \<^verbatim>\<open>OverflowError\<close>; \<open>parser_raises_caught\<close> says of a
  text that on it the parser raises only what \<open>parse_date\<close> catches. The texts in question
  are those that the date patterns capture: groups of at most four digits.
\<close>

definition patterns_capture :: "pattern list \<Rightarrow> string \<Rightarrow> bool" where
  "patterns_capture ps text \<longleftrightarrow>
     (\<forall>p \<in> set ps. \<forall>m. p text = Some m \<longrightarrow> (\<exists>s rest. groups m = Some s # rest))"

definition tables_capture :: "regex_tables \<Rightarrow> string \<Rightarrow> bool" where
  "tables_capture P text \<longleftrightarrow>
     patterns_capture (INVOICE_NUMBER_PATTERNS P) text \<and>
     patterns_capture (DATE_PATTERNS P) text \<and>
     patterns_capture (DUE_DATE_PATTERNS P) text \<and>
     patterns_capture (SELLER_PATTERNS P) text \<and>
     patterns_capture (BUYER_PATTERNS P) text \<and>
     patterns_capture (ADDRESS_PATTERNS P) text \<and>
     patterns_capture (TAX_ID_PATTERNS P) text \<and>
     patterns_capture (CURRENCY_PATTERNS P) text \<and>
     patterns_capture (NET_TOTAL_PATTERNS P) text \<and>
     patterns_capture (TAX_AMOUNT_PATTERNS P) text \<and>
     patterns_capture (GROSS_TOTAL_PATTERNS P) text"

definition parser_raises_caught :: "builtins \<Rightarrow> string \<Rightarrow> bool" where
  "parser_raises_caught B s \<longleftrightarrow>
     (\<forall>e. dateutil_parse B s = Inl e \<longrightarrow> e = ValueError \<or> e = TypeError)"

definition invoice_field_names :: "string list" where
  \<comment> \<open>the fields of \<^verbatim>\<open>Invoice\<close> in schema.py\<close>
  "invoice_field_names =
     [''invoice_number'', ''invoice_date'', ''due_date'', ''seller_name'', ''seller_address'',
      ''seller_tax_id'', ''buyer_name'', ''buyer_address'', ''buyer_tax_id'', ''currency'',
      ''net_total'', ''tax_amount'', ''gross_total'', ''line_items'']"

section \<open>Example records\<close>

text \<open>The invoice used by the tests of the validator (\<^verbatim>\<open>test_duplicate_detection\<close>).\<close>

definition test_invoice :: pydict where
  "test_invoice =
     [(''invoice_number'', PStr ''INV-001''), (''invoice_date'', PStr ''2024-01-15''),
      (''seller_name'', PStr ''Seller''), (''buyer_name'', PStr ''Buyer''),
      (''currency'', PStr ''USD''), (''net_total'', PNum 100), (''tax_amount'', PNum 10),
      (''gross_total'', PNum 110), (''line_items'', PList [])]"

definition test_invoice_object :: Invoice where
  "test_invoice_object =
     \<lparr>invoice_number = ''INV-001'', invoice_date = Some (Date 2024 1 15), due_date = None,
      seller_name = ''Seller'', seller_address = None, seller_tax_id = None,
      buyer_name = ''Buyer'', buyer_address = None, buyer_tax_id = None, currency = ''USD'',
      net_total = 100, tax_amount = 10, gross_total = 110, line_items = []\<rparr>"

text \<open>The two invoices of \<^verbatim>\<open>test_batch_validation\<close>, and a line item as a record.\<close>

definition line_item_record :: "string \<Rightarrow> real \<Rightarrow> real \<Rightarrow> real \<Rightarrow> pydict" where
  "line_item_record dsc q p t =
     [(''description'', PStr dsc), (''quantity'', PNum q), (''unit_price'', PNum p),
      (''line_total'', PNum t)]"

definition batch_invoice_1 :: pydict where
  "batch_invoice_1 =
     [(''invoice_number'', PStr ''INV-001''), (''invoice_date'', PStr ''2024-01-15''),
      (''seller_name'', PStr ''Seller''), (''buyer_name'', PStr ''Buyer''),
      (''currency'', PStr ''USD''), (''net_total'', PNum 100), (''tax_amount'', PNum 10),
      (''gross_total'', PNum 110),
      (''line_items'', PList [PDict (line_item_record ''Item 1'' 1 100 100)])]"

definition batch_invoice_2 :: pydict where
  "batch_invoice_2 =
     [(''invoice_number'', PStr ''INV-002''), (''invoice_date'', PStr ''2024-01-16''),
      (''seller_name'', PStr ''Seller''), (''buyer_name'', PStr ''Buyer''),
      (''currency'', PStr ''USD''), (''net_total'', PNum 200), (''tax_amount'', PNum 20),
      (''gross_total'', PNum 220),
      (''line_items'', PList [PDict (line_item_record ''Item 2'' 2 100 200)])]"

definition batch_invoice_1_object :: Invoice where
  "batch_invoice_1_object =
     \<lparr>invoice_number = ''INV-001'', invoice_date = Some (Date 2024 1 15), due_date = None,
      seller_name = ''Seller'', seller_address = None, seller_tax_id = None,
      buyer_name = ''Buyer'', buyer_address = None, buyer_tax_id = None, currency = ''USD'',
      net_total = 100, tax_amount = 10, gross_total = 110,
      line_items =
        [\<lparr>description = ''Item 1'', quantity = 1, unit_price = 100, line_total = 100\<rparr>]\<rparr>"

definition batch_invoice_2_object :: Invoice where
  "batch_invoice_2_object =
     \<lparr>invoice_number = ''INV-002'', invoice_date = Some (Date 2024 1 16), due_date = None,
      seller_name = ''Seller'', seller_address = None, seller_tax_id = None,
      buyer_name = ''Buyer'', buyer_address = None, buyer_tax_id = None, currency = ''USD'',
      net_total = 200, tax_amount = 20, gross_total = 220,
      line_items =
        [\<lparr>description = ''Item 2'', quantity = 2, unit_price = 100, line_total = 200\<rparr>]\<rparr>"



text \<open>
  A batch of three records: a valid invoice, the same invoice again, and the invoice with a
  due date that precedes its invoice date (\<^verbatim>\<open>test_due_date_validation\<close>).
\<close>

definition late_due_invoice :: pydict where
  "late_due_invoice = (''due_date'', PStr ''2024-01-10'') # batch_invoice_1"

definition demo_batch :: "pydict list" where
  "demo_batch = [batch_invoice_1, batch_invoice_1, late_due_invoice]"

definition demo_results :: "validation_result list" where
  "demo_results =
     [\<lparr>invoice_id = PStr ''INV-001'', is_valid = True, errors = []\<rparr>,
      \<lparr>invoice_id = PStr ''INV-001'', is_valid = False,
       errors = [''anomaly_detected: duplicate_invoice '' @
                 ''(invoice_number=INV-001, seller=Seller, date=2024-01-15)'']\<rparr>,
      \<lparr>invoice_id = PStr ''INV-001'', is_valid = False,
       errors = [''schema_error: Value error, due_date 2024-01-10 '' @
                 ''must be >= invoice_date 2024-01-15'']\<rparr>]"

text \<open>
  An instance of the library parameters, for worked examples: a pattern that finds a label
  and captures the rest of its line, \<^verbatim>\<open>float\<close> on texts of digits with at most one point
  (the form of what the module's amount patterns capture once commas are removed), and a
  date parser that reads ISO dates and raises \<^verbatim>\<open>ValueError\<close> otherwise.
\<close>

fun find_after :: "string \<Rightarrow> string \<Rightarrow> string option" where
  "find_after lbl [] = (if lbl = [] then Some [] else None)"
| "find_after lbl (c # cs) =
     (if prefix lbl (c # cs) then Some (drop (length lbl) (c # cs)) else find_after lbl cs)"

definition label_pattern :: "string \<Rightarrow> pattern" where
  "label_pattern lbl text =
     (case find_after lbl text of
        None \<Rightarrow> None
      | Some rest \<Rightarrow>
          Some (Match [Some (takeWhile (\<lambda>c. c \<noteq> CHR 0x0A) rest)]
                  (length text - length (dropWhile (\<lambda>c. c \<noteq> CHR 0x0A) rest))))"

definition decimal_float :: "string \<Rightarrow> real option" where
  "decimal_float s =
     (let ip = takeWhile (\<lambda>c. c \<noteq> CHR ''.'') s;
          fp = drop 1 (dropWhile (\<lambda>c. c \<noteq> CHR ''.'') s)
      in if ip = [] \<and> fp = [] then None
         else case (digits_val 0 ip, digits_val 0 fp) of
                (Some a, Some b) \<Rightarrow> Some (real a + real b / 10 ^ length fp)
              | _ \<Rightarrow> None)"

definition iso_parser :: "string \<Rightarrow> py_error + date" where
  "iso_parser s = (case date_fromisoformat s of None \<Rightarrow> Inl ValueError | Some d \<Rightarrow> Inr d)"

definition demo_builtins :: builtins where
  "demo_builtins = \<lparr>py_float = decimal_float, dateutil_parse = iso_parser\<rparr>"

definition demo_tables :: regex_tables where
  "demo_tables =
     \<lparr>INVOICE_NUMBER_PATTERNS = [label_pattern ''Invoice #: ''],
      DATE_PATTERNS = [label_pattern ''Date: ''],
      DUE_DATE_PATTERNS = [label_pattern ''Due Date: ''],
      SELLER_PATTERNS = [label_pattern ''From: ''],
      BUYER_PATTERNS = [label_pattern ''To: ''],
      ADDRESS_PATTERNS = [],
      TAX_ID_PATTERNS = [],
      CURRENCY_PATTERNS = [label_pattern ''Currency: ''],
      AMOUNT_PATTERNS = [],
      NET_TOTAL_PATTERNS = [label_pattern ''Subtotal: ''],
      TAX_AMOUNT_PATTERNS = [label_pattern ''Tax: ''],
      GROSS_TOTAL_PATTERNS = [label_pattern ''Total: ''],
      table_pattern = (\<lambda>text. None),
      line_item_findall = (\<lambda>text. [])\<rparr>"

definition demo_text :: string where
  "demo_text = ''Invoice #: INV-7'' @ [CHR 0x0A] @ ''Date: 2024-01-15'' @ [CHR 0x0A] @
     ''From: Acme'' @ [CHR 0x0A] @ ''Total: 38.50''"

definition demo_amount_text :: string where
  "demo_amount_text = ''Total: n/a'' @ [CHR 0x0A] @ ''Due: 1,234.50''"

section \<open>Construction: basic facts\<close>

lemma sum_bind_eq_Inr: "sum_bind m f = Inr y \<longleftrightarrow> (\<exists>v. m = Inr v \<and> f v = Inr y)"
  by (cases m) auto

lemma sum_bind_eq_Inl:
  "sum_bind m f = Inl e \<longleftrightarrow> m = Inl e \<or> (\<exists>v. m = Inr v \<and> f v = Inl e)"
  by (cases m) auto

lemma validate_due_date_Inr: "validate_due_date x = Inr y \<Longrightarrow> y = x"
  by (auto simp: validate_due_date_def split: option.splits if_splits)

lemma Invoice_new_InrE:
  assumes "Invoice_new d = Inr iv"
  obtains a b c e f g h i j k l m n p where
    "str_field_min1 d ''invoice_number'' = Inr a"
    "date_field d ''invoice_date'' = Inr b"
    "opt_date_field d ''due_date'' = Inr c"
    "str_field_min1 d ''seller_name'' = Inr e"
    "opt_str_field d ''seller_address'' = Inr f"
    "opt_str_field d ''seller_tax_id'' = Inr g"
    "str_field_min1 d ''buyer_name'' = Inr h"
    "opt_str_field d ''buyer_address'' = Inr i"
    "opt_str_field d ''buyer_tax_id'' = Inr j"
    "sum_bind (str_field d ''currency'') validate_currency = Inr k"
    "float_field_ge0 d ''net_total'' = Inr l"
    "float_field_ge0 d ''tax_amount'' = Inr m"
    "float_field_ge0 d ''gross_total'' = Inr n"
    "line_items_field d = Inr p"
    "validate_due_date iv = Inr iv"
    "iv = \<lparr>invoice_number = a, invoice_date = Some b, due_date = c,
        seller_name = e, seller_address = f, seller_tax_id = g, buyer_name = h,
        buyer_address = i, buyer_tax_id = j, currency = k, net_total = l, tax_amount = m,
        gross_total = n, line_items = p\<rparr>"
proof -
  from assms obtain a b c e f g h i j k l m n p where
    flds: "str_field_min1 d ''invoice_number'' = Inr a"
    "date_field d ''invoice_date'' = Inr b"
    "opt_date_field d ''due_date'' = Inr c"
    "str_field_min1 d ''seller_name'' = Inr e"
    "opt_str_field d ''seller_address'' = Inr f"
    "opt_str_field d ''seller_tax_id'' = Inr g"
    "str_field_min1 d ''buyer_name'' = Inr h"
    "opt_str_field d ''buyer_address'' = Inr i"
    "opt_str_field d ''buyer_tax_id'' = Inr j"
    "sum_bind (str_field d ''currency'') validate_currency = Inr k"
    "float_field_ge0 d ''net_total'' = Inr l"
    "float_field_ge0 d ''tax_amount'' = Inr m"
    "float_field_ge0 d ''gross_total'' = Inr n"
    "line_items_field d = Inr p"
    and vd: "validate_due_date \<lparr>invoice_number = a, invoice_date = Some b, due_date = c,
        seller_name = e, seller_address = f, seller_tax_id = g, buyer_name = h,
        buyer_address = i, buyer_tax_id = j, currency = k, net_total = l, tax_amount = m,
        gross_total = n, line_items = p\<rparr> = Inr iv"
    unfolding Invoice_new_def by (force simp only: sum_bind_eq_Inr)
  from validate_due_date_Inr [OF vd] vd flds that show thesis
    by blast
qed

lemmas field_defs =
  str_field_min1_def str_field_def opt_str_field_def float_field_ge0_def as_date_def
  date_field_def opt_date_field_def date_fromisoformat_def digit_val_def valid_date_def
  days_in_month_def is_leap_def line_items_field_def validate_currency_def upper_def
  upper_char_def validate_due_date_def date_less_def

lemma Invoice_new_test_invoice: "Invoice_new test_invoice = Inr test_invoice_object"
  by (simp add: Invoice_new_def test_invoice_def test_invoice_object_def field_defs)

lemma Invoice_new_currency:
  "Invoice_new ((''currency'', PStr ''XYZ'') # test_invoice) = Inl (Currency_not_allowed ''XYZ'')"
  by (simp add: Invoice_new_def test_invoice_def field_defs)

lemma Invoice_new_due_date:
  "Invoice_new ((''due_date'', PStr ''2024-01-10'') # test_invoice) =
     Inl (Due_date_before (Date 2024 1 10) (Date 2024 1 15))"
  by (simp add: Invoice_new_def test_invoice_def field_defs)

lemmas item_defs = LineItem_new_def line_item_record_def validate_line_total_def

lemma Invoice_new_batch_invoice_1: "Invoice_new batch_invoice_1 = Inr batch_invoice_1_object"
  by (simp add: Invoice_new_def batch_invoice_1_def batch_invoice_1_object_def field_defs
      item_defs)

lemma Invoice_new_batch_invoice_2: "Invoice_new batch_invoice_2 = Inr batch_invoice_2_object"
  by (simp add: Invoice_new_def batch_invoice_2_def batch_invoice_2_object_def field_defs
      item_defs)

lemma Invoice_new_batch_due_date:
  "Invoice_new ((''due_date'', PStr ''2024-01-10'') # batch_invoice_1) =
     Inl (Due_date_before (Date 2024 1 10) (Date 2024 1 15))"
  by (simp add: Invoice_new_def batch_invoice_1_def field_defs item_defs)

lemmas rule_defs =
  validate_completeness_def validate_format_def validate_business_rules_def tolerance_def
  validate_anomalies_def duplicate_key_of_def strip_def is_space_def

lemmas text_defs =
  isoformat_def zero_pad_def dec_digits.simps digit_char_def format_2f_def
  round_half_even_def str_opt_date_def

lemma validate_batch_invoice_1:
  "validate \<lparr>seen_invoices = {}\<rparr> batch_invoice_1 =
     (\<lparr>seen_invoices = {(''INV-001'', ''Seller'', Some ''2024-01-15'')}\<rparr>,
      \<lparr>invoice_id = PStr ''INV-001'', is_valid = True, errors = []\<rparr>)"
  by (simp add: validate_def Invoice_new_batch_invoice_1)
     (simp add: batch_invoice_1_def batch_invoice_1_object_def dict_get_def rule_defs text_defs)

lemma opt_date_field_Some:
  "map_of d k = Some v \<Longrightarrow> as_date v = Some x \<Longrightarrow> opt_date_field d k = Inr (Some x)"
  by (cases v) (auto simp: opt_date_field_def as_date_def)

lemma date_field_Some:
  "map_of d k = Some v \<Longrightarrow> as_date v = Some x \<Longrightarrow> date_field d k = Inr x"
  by (auto simp: date_field_def)

lemma Invoice_new_due_date_ok:
  assumes "Invoice_new d = Inr iv"
  shows "\<not> (\<exists>dd idt. due_date iv = Some dd \<and> invoice_date iv = Some idt \<and> date_less dd idt)"
proof -
  from assms have "validate_due_date iv = Inr iv"
    by (rule Invoice_new_InrE)
  then show ?thesis
    by (auto simp: validate_due_date_def)
qed

lemma due_date_error_free:
  assumes "\<not> (\<exists>dd idt. due_date iv = Some dd \<and> invoice_date iv = Some idt \<and> date_less dd idt)"
  shows "\<forall>err \<in> set (validate_business_rules iv).
           \<not> prefix ''business_rule_failed: due_date_before_invoice_date'' err"
  using assms
  by (auto simp: validate_business_rules_def totals_mismatch_error_def
      gross_total_mismatch_error_def Let_def split: option.splits)







lemma completeness_prefix:
  "e \<in> set (validate_completeness iv) \<Longrightarrow> prefix ''missing_field: '' e"
  by (auto simp: validate_completeness_def split: if_splits)

lemma format_prefix: "e \<in> set (validate_format iv) \<Longrightarrow> prefix ''format_error: '' e"
  by (auto simp: validate_format_def split: if_splits)

lemma business_prefix:
  "e \<in> set (validate_business_rules iv) \<Longrightarrow> prefix ''business_rule_failed: '' e"
  by (auto simp: validate_business_rules_def Let_def totals_mismatch_error_def
      gross_total_mismatch_error_def due_date_error_def split: if_splits option.splits)


lemma prefix_first_char: "prefix (a # p) e \<Longrightarrow> prefix (b # q) e \<Longrightarrow> a = b"
  by (cases e) auto

lemma validate_Inr:
  assumes "Invoice_new d = Inr iv"
  shows "validate self d =
     (fst (validate_anomalies self iv
             (dict_get d ''invoice_id'' (dict_get d ''invoice_number'' (PStr ''unknown'')))),
      \<lparr>invoice_id = dict_get d ''invoice_id'' (dict_get d ''invoice_number'' (PStr ''unknown'')),
       is_valid =
         (validate_completeness iv @ validate_format iv @ validate_business_rules iv @
          snd (validate_anomalies self iv
             (dict_get d ''invoice_id'' (dict_get d ''invoice_number'' (PStr ''unknown''))))
          = []),
       errors =
         validate_completeness iv @ validate_format iv @ validate_business_rules iv @
         snd (validate_anomalies self iv
             (dict_get d ''invoice_id'' (dict_get d ''invoice_number'' (PStr ''unknown''))))\<rparr>)"
  using assms by (simp add: validate_def Let_def split: prod.splits)





section \<open>Batches: basic facts\<close>

lemma batch_loop_results:
  "fst (snd (batch_loop s xs rs ec)) =
     rs @ map (\<lambda>i. snd (validate (fold (\<lambda>data v. fst (validate v data)) (take i xs) s) (xs ! i)))
            [0..<length xs]"
proof (induction xs arbitrary: s rs ec)
  case Nil
  then show ?case by simp
next
  case (Cons x xs)
  show ?case
    by (simp add: Cons.IH split_beta Let_def map_upt_Suc del: upt_Suc)
qed

lemma batch_loop_state:
  "fst (batch_loop s xs rs ec) = fold (\<lambda>data v. fst (validate v data)) xs s"
  by (induction xs arbitrary: s rs ec) (simp_all add: split_beta Let_def)

lemma batch_loop_counts:
  "snd (snd (batch_loop s xs rs ec)) =
     foldl (\<lambda>c error. counter_incr c (error_type_of error)) ec
       (concat (map errors (drop (length rs) (fst (snd (batch_loop s xs rs ec))))))"
proof (induction xs arbitrary: s rs ec)
  case Nil
  then show ?case by simp
next
  case (Cons x xs)
  show ?case
    apply (simp add: split_beta Let_def)
    apply (subst Cons.IH)
    apply (simp add: batch_loop_results)
    done
qed

lemma validate_seen:
  "seen_invoices (fst (validate s d)) =
     (case Invoice_new d of
        Inl e \<Rightarrow> seen_invoices s
      | Inr iv \<Rightarrow> insert (duplicate_key_of iv) (seen_invoices s))"
  by (auto simp: validate_def validate_anomalies_def Let_def split: sum.splits)

lemma fold_validate_seen:
  "seen_invoices (fold (\<lambda>data v. fst (validate v data)) ys s) =
     seen_invoices s \<union> {duplicate_key_of iv | iv d. d \<in> set ys \<and> Invoice_new d = Inr iv}"
proof (induction ys arbitrary: s)
  case Nil
  then show ?case by simp
next
  case (Cons y ys)
  show ?case
    by (cases "Invoice_new y") (auto simp: Cons.IH validate_seen)
qed

lemma other_rules_not_anomaly:
  assumes "e \<in> set (validate_completeness iv) \<or> e \<in> set (validate_format iv) \<or>
     e \<in> set (validate_business_rules iv)"
  shows "\<not> prefix (CHR ''a'' # p) e"
  using assms completeness_prefix [of e iv] format_prefix [of e iv] business_prefix [of e iv]
  by (auto dest: prefix_first_char)

lemma duplicate_error_prefix: "prefix ''anomaly_detected: duplicate_invoice'' (duplicate_error iv)"
  by (simp add: duplicate_error_def)

lemma validate_flag_iff:
  assumes "Invoice_new d = Inr iv"
  shows "(\<exists>e \<in> set (errors (snd (validate s d))). prefix ''anomaly_detected: duplicate_invoice'' e)
     \<longleftrightarrow> duplicate_key_of iv \<in> seen_invoices s"
proof -
  let ?x = "dict_get d ''invoice_id'' (dict_get d ''invoice_number'' (PStr ''unknown''))"
  have errs: "set (errors (snd (validate s d))) =
      set (validate_completeness iv) \<union> set (validate_format iv) \<union>
      set (validate_business_rules iv) \<union> set (snd (validate_anomalies s iv ?x))"
    by (auto simp: validate_Inr [OF assms])
  have "(\<exists>e \<in> set (errors (snd (validate s d))). prefix ''anomaly_detected: duplicate_invoice'' e)
     \<longleftrightarrow> (\<exists>e \<in> set (snd (validate_anomalies s iv ?x)). prefix ''anomaly_detected: duplicate_invoice'' e)"
    unfolding errs using other_rules_not_anomaly [of _ iv "''nomaly_detected: duplicate_invoice''"]
    by auto
  also have "\<dots> \<longleftrightarrow> duplicate_key_of iv \<in> seen_invoices s"
    using duplicate_error_prefix [of iv] by (simp add: validate_anomalies_def Let_def)
  finally show ?thesis .
qed

lemma validate_no_flag_on_failure:
  assumes "Invoice_new d = Inl e"
  shows "\<not> (\<exists>e \<in> set (errors (snd (validate s d))). prefix ''anomaly_detected: duplicate_invoice'' e)"
  using assms by (simp add: validate_def)

lemma validate_is_valid: "is_valid (snd (validate s d)) \<longleftrightarrow> errors (snd (validate s d)) = []"
  by (cases "Invoice_new d") (simp_all add: validate_def split_beta Let_def)

lemma batch_results_valid:
  "r \<in> set (results (snd (validate_batch self invoices))) \<Longrightarrow> is_valid r \<longleftrightarrow> errors r = []"
  by (auto simp: validate_batch_def split_beta Let_def batch_loop_results validate_is_valid)

lemma counter_incr_keys:
  "map fst (counter_incr c k) = (if k \<in> fst ` set c then map fst c else map fst c @ [k])"
  by (auto simp: counter_incr_def split_beta intro!: map_idI)

lemma counter_incr_distinct:
  "distinct (map fst c) \<Longrightarrow> distinct (map fst (counter_incr c k))"
  by (simp add: counter_incr_keys)

lemma map_of_bump:
  "map_of (map (\<lambda>(k', n). if k' = k then (k', n + 1) else (k', n)) c) x =
     (if x = k then map_option Suc (map_of c x) else map_of c x)"
  by (induction c) auto

lemma counter_incr_map_of:
  "map_of (counter_incr c k) x =
     (if x = k then Some (case map_of c k of None \<Rightarrow> 1 | Some n \<Rightarrow> n + 1) else map_of c x)"
proof (cases "k \<in> fst ` set c")
  case True
  then obtain n where "map_of c k = Some n"
    by (metis domD dom_map_of_conv_image_fst)
  with True show ?thesis
    by (simp add: counter_incr_def map_of_bump)
next
  case False
  then have "map_of c k = None"
    by (simp add: map_of_eq_None_iff)
  with False show ?thesis
    by (auto simp: counter_incr_def map_add_def split: option.splits)
qed

lemma sum_bump_absent:
  "k \<notin> fst ` set c \<Longrightarrow>
   sum_list (map (snd \<circ> (\<lambda>(k', n). if k' = k then (k', n + 1) else (k', n))) c) =
     sum_list (map snd c)"
  by (induction c) (auto simp: split_beta)

lemma sum_bump:
  "distinct (map fst c) \<Longrightarrow> k \<in> fst ` set c \<Longrightarrow>
   sum_list (map (snd \<circ> (\<lambda>(k', n). if k' = k then (k', n + 1) else (k', n))) c) =
     Suc (sum_list (map snd c))"
  by (induction c) (auto simp: split_beta sum_bump_absent)

lemma counter_incr_sum:
  "distinct (map fst c) \<Longrightarrow> sum_list (map snd (counter_incr c k)) = Suc (sum_list (map snd c))"
  by (simp add: counter_incr_def sum_bump)

lemma counter_incr_key_set: "fst ` set (counter_incr c k) = insert k (fst ` set c)"
proof -
  have "set (map fst (counter_incr c k)) = insert k (set (map fst c))"
    unfolding counter_incr_keys by auto
  then show ?thesis by simp
qed

lemma count_errors_distinct:
  "distinct (map fst c) \<Longrightarrow>
   distinct (map fst (foldl (\<lambda>c error. counter_incr c (error_type_of error)) c es))"
  by (induction es arbitrary: c) (simp_all add: counter_incr_distinct)

lemma count_errors_sum:
  "distinct (map fst c) \<Longrightarrow>
   sum_list (map snd (foldl (\<lambda>c error. counter_incr c (error_type_of error)) c es)) =
     sum_list (map snd c) + length es"
  by (induction es arbitrary: c) (simp_all add: counter_incr_distinct counter_incr_sum)

lemma count_errors_keys:
  "fst ` set (foldl (\<lambda>c error. counter_incr c (error_type_of error)) c es) =
     fst ` set c \<union> error_type_of ` set es"
  by (induction es arbitrary: c) (simp_all add: counter_incr_key_set)

lemma count_errors_count:
  "(case map_of (foldl (\<lambda>c error. counter_incr c (error_type_of error)) c es) x of
      None \<Rightarrow> 0 | Some n \<Rightarrow> n) =
   (case map_of c x of None \<Rightarrow> 0 | Some n \<Rightarrow> n) + count_list (map error_type_of es) x"
proof (induction es arbitrary: c)
  case Nil
  then show ?case by simp
next
  case (Cons e es)
  show ?case
    by (simp add: Cons.IH counter_incr_map_of split: option.splits)
qed

lemma validate_batch_invoice_1_again:
  "validate \<lparr>seen_invoices = {(''INV-001'', ''Seller'', Some ''2024-01-15'')}\<rparr> batch_invoice_1 =
     (\<lparr>seen_invoices = {(''INV-001'', ''Seller'', Some ''2024-01-15'')}\<rparr>,
      \<lparr>invoice_id = PStr ''INV-001'', is_valid = False,
       errors = [''anomaly_detected: duplicate_invoice (invoice_number=INV-001, seller=Seller, date=2024-01-15)'']\<rparr>)"
  by (simp add: validate_def Invoice_new_batch_invoice_1)
     (simp add: batch_invoice_1_def batch_invoice_1_object_def dict_get_def rule_defs text_defs
       duplicate_error_def)

lemma validate_late_due_invoice:
  "validate s late_due_invoice =
     (s, \<lparr>invoice_id = PStr ''INV-001'', is_valid = False,
       errors = [''schema_error: Value error, due_date 2024-01-10 must be >= invoice_date 2024-01-15'']\<rparr>)"
  using Invoice_new_batch_due_date
  by (simp add: validate_def late_due_invoice_def)
     (simp add: batch_invoice_1_def dict_get_def text_defs)

lemma validate_batch_demo:
  "validate_batch s demo_batch =
     (\<lparr>seen_invoices = {(''INV-001'', ''Seller'', Some ''2024-01-15'')}\<rparr>,
      \<lparr>results = demo_results,
       summary = \<lparr>total_invoices = 3, valid_invoices = 1, invalid_invoices = 2,
                  error_counts = [(''anomaly_detected'', 1), (''schema_error'', 1)]\<rparr>\<rparr>)"
proof -
  have s: "s\<lparr>seen_invoices := {}\<rparr> = \<lparr>seen_invoices = {}\<rparr>"
    by simp
  show ?thesis
    unfolding validate_batch_def demo_batch_def s
    by (simp add: validate_batch_invoice_1 validate_batch_invoice_1_again
        validate_late_due_invoice demo_results_def counter_incr_def error_type_of_def)
qed

section \<open>Extraction: basic facts\<close>

lemma group1_capture:
  "patterns_capture ps text \<Longrightarrow> p \<in> set ps \<Longrightarrow> p text = Some m \<Longrightarrow> \<exists>s. group1 m = Inr s"
  by (fastforce simp: patterns_capture_def group1_def)

lemma patterns_capture_Cons:
  "patterns_capture (p # ps) text \<longleftrightarrow>
     (\<forall>m. p text = Some m \<longrightarrow> (\<exists>s rest. groups m = Some s # rest)) \<and> patterns_capture ps text"
  by (auto simp: patterns_capture_def)

lemma first_group_total:
  "patterns_capture ps text \<Longrightarrow> \<exists>r. first_group ps text = Inr r"
proof (induction ps)
  case Nil
  then show ?case by simp
next
  case (Cons p ps)
  then show ?case
    by (cases "p text") (auto simp: patterns_capture_Cons group1_def)
qed

lemma first_group_unmatched:
  "first_group ps text = Inr None \<longleftrightarrow> (\<forall>p \<in> set ps. p text = None)"
proof (induction ps)
  case Nil
  then show ?case by simp
next
  case (Cons p ps)
  then show ?case
    by (cases "p text") (auto simp: sum_bind_eq_Inr)
qed

lemma amount_loop_total:
  "patterns_capture ps text \<Longrightarrow> \<exists>r. amount_loop B ps text = Inr r"
proof (induction ps)
  case Nil
  then show ?case by simp
next
  case (Cons p ps)
  then show ?case
    by (cases "p text")
       (auto simp: patterns_capture_Cons group1_def Let_def split: option.splits)
qed

lemma amount_loop_None_iff:
  assumes "patterns_capture ps text"
  shows "amount_loop B ps text = Inr None \<longleftrightarrow>
     (\<forall>p \<in> set ps. \<forall>m s. p text = Some m \<and> group1 m = Inr s \<longrightarrow>
        py_float B (replace_commas s) = None)"
  using assms
proof (induction ps)
  case Nil
  then show ?case by simp
next
  case (Cons p ps)
  show ?case
  proof (cases "p text")
    case None
    with Cons show ?thesis by (simp add: patterns_capture_Cons)
  next
    case (Some m)
    with Cons.prems obtain s where s: "group1 m = Inr s"
      by (auto simp: patterns_capture_Cons group1_def)
    show ?thesis
    proof (cases "py_float B (replace_commas s)")
      case None
      with Some s Cons show ?thesis by (simp add: patterns_capture_Cons)
    next
      case (Some v)
      with \<open>p text = Some m\<close> s show ?thesis by auto
    qed
  qed
qed

lemma amount_loop_Some_iff:
  assumes "patterns_capture ps text"
  shows "amount_loop B ps text = Inr (Some v) \<longleftrightarrow>
     (\<exists>before p after m s. ps = before @ p # after \<and> p text = Some m \<and> group1 m = Inr s \<and>
        py_float B (replace_commas s) = Some v \<and>
        (\<forall>q \<in> set before. \<forall>m' s'. q text = Some m' \<and> group1 m' = Inr s' \<longrightarrow>
           py_float B (replace_commas s') = None))"
    (is "_ \<longleftrightarrow> ?R ps")
  using assms
proof (induction ps)
  case Nil
  then show ?case by simp
next
  case (Cons p ps)
  then have IH: "amount_loop B ps text = Inr (Some v) \<longleftrightarrow> ?R ps"
    by (simp add: patterns_capture_Cons)
  have skip: "?R (p # ps) \<longleftrightarrow> ?R ps"
    if "\<forall>m s. p text = Some m \<and> group1 m = Inr s \<longrightarrow> py_float B (replace_commas s) = None"
  proof
    assume "?R (p # ps)"
    then obtain before q after m s where d: "p # ps = before @ q # after"
      and q: "q text = Some m" "group1 m = Inr s" "py_float B (replace_commas s) = Some v"
      and b: "\<forall>q \<in> set before. \<forall>m' s'. q text = Some m' \<and> group1 m' = Inr s' \<longrightarrow>
           py_float B (replace_commas s') = None"
      by blast
    from d q that obtain before' where "before = p # before'" "ps = before' @ q # after"
      by (cases before) auto
    with q b show "?R ps" by auto
  next
    assume "?R ps"
    then obtain before q after m s where d: "ps = before @ q # after"
      and q: "q text = Some m" "group1 m = Inr s" "py_float B (replace_commas s) = Some v"
      and b: "\<forall>q \<in> set before. \<forall>m' s'. q text = Some m' \<and> group1 m' = Inr s' \<longrightarrow>
           py_float B (replace_commas s') = None"
      by blast
    from d have "p # ps = (p # before) @ q # after" by simp
    moreover from b that
    have "\<forall>q \<in> set (p # before). \<forall>m' s'. q text = Some m' \<and> group1 m' = Inr s' \<longrightarrow>
           py_float B (replace_commas s') = None"
      by auto
    ultimately show "?R (p # ps)" using q by blast
  qed
  show ?case
  proof (cases "p text")
    case None
    then show ?thesis using IH skip by simp
  next
    case (Some m)
    with Cons.prems obtain s where s: "group1 m = Inr s"
      by (auto simp: patterns_capture_Cons group1_def)
    show ?thesis
    proof (cases "py_float B (replace_commas s)")
      case None
      with Some s show ?thesis using IH skip by simp
    next
      case (Some w)
      have "?R (p # ps) \<longleftrightarrow> w = v"
      proof
        assume "?R (p # ps)"
        then obtain before q after m' s' where d: "p # ps = before @ q # after"
          and q: "q text = Some m'" "group1 m' = Inr s'" "py_float B (replace_commas s') = Some v"
          and b: "\<forall>q \<in> set before. \<forall>m' s'. q text = Some m' \<and> group1 m' = Inr s' \<longrightarrow>
             py_float B (replace_commas s') = None"
          by blast
        show "w = v"
        proof (cases before)
          case Nil
          with d q \<open>p text = Some m\<close> s Some show ?thesis by auto
        next
          case (Cons a list)
          with d b \<open>p text = Some m\<close> s Some show ?thesis by auto
        qed
      next
        assume "w = v"
        with \<open>p text = Some m\<close> s Some have "p # ps = [] @ p # ps \<and> p text = Some m \<and>
            group1 m = Inr s \<and> py_float B (replace_commas s) = Some v"
          by simp
        then show "?R (p # ps)" by (metis empty_iff list.set(1))
      qed
      with \<open>p text = Some m\<close> s Some show ?thesis by auto
    qed
  qed
qed

lemma label_pattern_captures: "patterns_capture (map label_pattern lbls) text"
  by (auto simp: patterns_capture_def label_pattern_def split: option.splits)

lemma parse_date_if_total:
  assumes "\<forall>s. x = Some s \<longrightarrow> parser_raises_caught B s"
  shows "\<exists>v. parse_date_if B x = Inr v \<and> (v = PNone \<or> (\<exists>d. v = PStr (isoformat d))) \<and>
     (x = None \<longrightarrow> v = PNone) \<and>
     (\<forall>s e. x = Some s \<and> dateutil_parse B s = Inl e \<longrightarrow> v = PNone)"
proof (cases x)
  case None
  then show ?thesis by (simp add: parse_date_if_def)
next
  case (Some s)
  show ?thesis
  proof (cases "dateutil_parse B s")
    case (Inl e)
    with assms Some have "e = ValueError \<or> e = TypeError"
      by (auto simp: parser_raises_caught_def)
    with Inl Some show ?thesis
      by (auto simp: parse_date_if_def parse_date_def)
  next
    case (Inr d)
    with Some show ?thesis
      by (auto simp: parse_date_if_def parse_date_def)
  qed
qed

lemma extract_currency_total:
  "patterns_capture (CURRENCY_PATTERNS P) text \<Longrightarrow> \<exists>r. extract_currency P text = Inr r"
  using first_group_total [of "CURRENCY_PATTERNS P" "text"]
  by (auto simp: extract_currency_def)

lemma extract_currency_unmatched:
  "extract_currency P text = Inr None \<longleftrightarrow> first_group (CURRENCY_PATTERNS P) text = Inr None"
  by (auto simp: extract_currency_def sum_bind_eq_Inr split: option.splits)

lemma demo_tables_capture: "tables_capture demo_tables t"
  unfolding tables_capture_def demo_tables_def
  using label_pattern_captures [of "[]" t] label_pattern_captures [of "[x]" t for x]
  by simp

lemma demo_parser_raises_caught: "parser_raises_caught demo_builtins s"
  by (auto simp: parser_raises_caught_def demo_builtins_def iso_parser_def split: option.splits)

lemmas extract_defs =
  extract_invoice_from_text_def extract_invoice_number_def extract_date_def
  extract_due_date_def extract_seller_name_def extract_buyer_name_def extract_address_def
  extract_tax_id_def extract_currency_def extract_net_total_def extract_tax_amount_def
  extract_gross_total_def extract_amount_def extract_line_items_def parse_date_if_def
  parse_date_def str_or_def float_or_zero_def opt_str_val_def group1_def currency_code_def

lemma extract_demo_text:
  "extract_invoice_from_text demo_tables demo_builtins demo_text (Some ''doc-1'') =
     Inr [(''invoice_number'', PStr ''INV-7''), (''invoice_date'', PStr ''2024-01-15''),
          (''due_date'', PNone), (''seller_name'', PStr ''Acme''), (''seller_address'', PNone),
          (''seller_tax_id'', PNone), (''buyer_name'', PStr []), (''buyer_address'', PNone),
          (''buyer_tax_id'', PNone), (''currency'', PStr ''USD''), (''net_total'', PNum 0),
          (''tax_amount'', PNum 0), (''gross_total'', PNum 38.5), (''line_items'', PList []),
          (''invoice_id'', PStr ''doc-1'')]"
  by (simp add: extract_defs demo_tables_def demo_builtins_def demo_text_def label_pattern_def
      strip_def is_space_def replace_commas_def decimal_float_def iso_parser_def
      date_fromisoformat_def digit_val_def valid_date_def days_in_month_def is_leap_def
      text_defs List.map_filter_def)

section \<open>A record that fails construction\<close>

text \<open>
  Claim C1. When constructing the Invoice from a record fails, \<open>validate\<close> returns a result
  that is not valid and whose error list is the single entry \<open>schema_error: <details>\<close>,
  the details being the text of the failure. The completeness, format, business and anomaly
  checks contribute nothing: the error list has no other entry and the validator object is
  returned as it was.
\<close>

theorem validate_shape_failure:
  assumes "Invoice_new invoice_data = Inl e"
  shows "validate self invoice_data =
          (self,
           \<lparr>invoice_id =
              dict_get invoice_data ''invoice_id''
                (dict_get invoice_data ''invoice_number'' (PStr ''unknown'')),
            is_valid = False, errors = [''schema_error: '' @ error_text e]\<rparr>)"
  using assms by (simp add: validate_def)

theorem validate_shape_failure_witness:
  "Invoice_new ((''currency'', PStr ''XYZ'') # test_invoice) = Inl (Currency_not_allowed ''XYZ'') \<and>
   validate \<lparr>seen_invoices = {(''INV-001'', ''Seller'', Some ''2024-01-15'')}\<rparr>
     ((''currency'', PStr ''XYZ'') # test_invoice) =
     (\<lparr>seen_invoices = {(''INV-001'', ''Seller'', Some ''2024-01-15'')}\<rparr>,
      \<lparr>invoice_id = PStr ''INV-001'', is_valid = False,
       errors = [''schema_error: Value error, Currency must be one of EUR, USD, INR, got XYZ'']\<rparr>)"
  using validate_shape_failure [OF Invoice_new_currency] Invoice_new_currency
  by (simp add: dict_get_def test_invoice_def)

section \<open>A record that fails construction leaves the duplicate keys alone\<close>

text \<open>
  Claim C10. When constructing the Invoice from a record fails, \<open>validate\<close> returns with the
  set of seen duplicate keys unchanged: the record's key is not inserted, the record gets no
  duplicate flag, and any record validated afterwards gets the result it would have got had
  the failing record not been validated.
\<close>

theorem shape_failure_keeps_state:
  assumes "Invoice_new invoice_data = Inl e"
  shows "seen_invoices (fst (validate self invoice_data)) = seen_invoices self \<and>
         (\<forall>err \<in> set (errors (snd (validate self invoice_data))).
            \<not> prefix ''anomaly_detected'' err) \<and>
         validate (fst (validate self invoice_data)) later = validate self later"
  using assms by (simp add: validate_def)

theorem shape_failure_keeps_state_witness:
  "Invoice_new ((''due_date'', PStr ''2024-01-10'') # batch_invoice_1) =
     Inl (Due_date_before (Date 2024 1 10) (Date 2024 1 15)) \<and>
   seen_invoices
     (fst (validate \<lparr>seen_invoices = {}\<rparr> ((''due_date'', PStr ''2024-01-10'') # batch_invoice_1))) = {} \<and>
   validate
     (fst (validate \<lparr>seen_invoices = {}\<rparr> ((''due_date'', PStr ''2024-01-10'') # batch_invoice_1)))
     batch_invoice_1 =
     (\<lparr>seen_invoices = {(''INV-001'', ''Seller'', Some ''2024-01-15'')}\<rparr>,
      \<lparr>invoice_id = PStr ''INV-001'', is_valid = True, errors = []\<rparr>)"
  using shape_failure_keeps_state [OF Invoice_new_batch_due_date,
      of "\<lparr>seen_invoices = {}\<rparr>" batch_invoice_1]
    Invoice_new_batch_due_date validate_batch_invoice_1
  by simp

section \<open>Due date before invoice date\<close>

text \<open>
  Claim C8. A record whose due date is present and earlier than its invoice date cannot be
  constructed: \<open>validate\<close> reports it with one \<open>schema_error\<close> entry. For an invoice that was
  constructed, the condition of the business rule \<open>due_date_before_invoice_date\<close> is false,
  so that rule never emits its error.
\<close>

theorem due_date_rejected_at_construction:
  "(map_of d ''due_date'' = Some v \<and> as_date v = Some dd \<and>
    map_of d ''invoice_date'' = Some w \<and> as_date w = Some idt \<and> date_less dd idt \<longrightarrow>
      (\<exists>e. Invoice_new d = Inl e \<and>
           errors (snd (validate self d)) = [''schema_error: '' @ error_text e] \<and>
           \<not> is_valid (snd (validate self d)))) \<and>
   (\<forall>iv. Invoice_new d = Inr iv \<longrightarrow>
      \<not> (\<exists>x y. due_date iv = Some x \<and> invoice_date iv = Some y \<and> date_less x y) \<and>
      (\<forall>err \<in> set (validate_business_rules iv).
         \<not> prefix ''business_rule_failed: due_date_before_invoice_date'' err))"
proof (intro conjI impI allI)
  assume h: "map_of d ''due_date'' = Some v \<and> as_date v = Some dd \<and>
    map_of d ''invoice_date'' = Some w \<and> as_date w = Some idt \<and> date_less dd idt"
  have "\<not> (\<exists>iv. Invoice_new d = Inr iv)"
  proof
    assume "\<exists>iv. Invoice_new d = Inr iv"
    then obtain iv where iv: "Invoice_new d = Inr iv" ..
    from iv have "due_date iv = Some dd \<and> invoice_date iv = Some idt"
      by (rule Invoice_new_InrE)
         (use h in \<open>auto simp: opt_date_field_Some date_field_Some\<close>)
    with h Invoice_new_due_date_ok [OF iv] show False by blast
  qed
  then obtain e where e: "Invoice_new d = Inl e"
    by (cases "Invoice_new d") auto
  then show "\<exists>e. Invoice_new d = Inl e \<and>
           errors (snd (validate self d)) = [''schema_error: '' @ error_text e] \<and>
           \<not> is_valid (snd (validate self d))"
    by (simp add: validate_def)
next
  fix iv assume "Invoice_new d = Inr iv"
  then show "\<not> (\<exists>x y. due_date iv = Some x \<and> invoice_date iv = Some y \<and> date_less x y)"
    by (rule Invoice_new_due_date_ok)
next
  fix iv assume "Invoice_new d = Inr iv"
  then show "\<forall>err \<in> set (validate_business_rules iv).
         \<not> prefix ''business_rule_failed: due_date_before_invoice_date'' err"
    by (intro due_date_error_free Invoice_new_due_date_ok)
qed

theorem due_date_rejected_at_construction_witness:
  "map_of ((''due_date'', PStr ''2024-01-10'') # test_invoice) ''due_date'' =
     Some (PStr ''2024-01-10'') \<and>
   as_date (PStr ''2024-01-10'') = Some (Date 2024 1 10) \<and>
   map_of ((''due_date'', PStr ''2024-01-10'') # test_invoice) ''invoice_date'' =
     Some (PStr ''2024-01-15'') \<and>
   as_date (PStr ''2024-01-15'') = Some (Date 2024 1 15) \<and>
   date_less (Date 2024 1 10) (Date 2024 1 15) \<and>
   errors (snd (validate \<lparr>seen_invoices = {}\<rparr> ((''due_date'', PStr ''2024-01-10'') # test_invoice))) =
     [''schema_error: Value error, due_date 2024-01-10 must be >= invoice_date 2024-01-15''] \<and>
   Invoice_new batch_invoice_1 = Inr batch_invoice_1_object \<and>
   validate_business_rules batch_invoice_1_object = []"
proof -
  have h: "map_of ((''due_date'', PStr ''2024-01-10'') # test_invoice) ''due_date'' =
       Some (PStr ''2024-01-10'') \<and>
     as_date (PStr ''2024-01-10'') = Some (Date 2024 1 10) \<and>
     map_of ((''due_date'', PStr ''2024-01-10'') # test_invoice) ''invoice_date'' =
       Some (PStr ''2024-01-15'') \<and>
     as_date (PStr ''2024-01-15'') = Some (Date 2024 1 15) \<and>
     date_less (Date 2024 1 10) (Date 2024 1 15)"
    by (simp add: test_invoice_def field_defs)
  have r: "validate_business_rules batch_invoice_1_object = []"
    by (simp add: batch_invoice_1_object_def rule_defs)
  from due_date_rejected_at_construction
    [of "(''due_date'', PStr ''2024-01-10'') # test_invoice" "PStr ''2024-01-10''"
      "Date 2024 1 10" "PStr ''2024-01-15''" "Date 2024 1 15" "\<lparr>seen_invoices = {}\<rparr>"]
    h Invoice_new_due_date
  have "errors (snd (validate \<lparr>seen_invoices = {}\<rparr>
           ((''due_date'', PStr ''2024-01-10'') # test_invoice))) =
     [''schema_error: Value error, due_date 2024-01-10 must be >= invoice_date 2024-01-15'']"
    by (auto simp: text_defs)
  with h r Invoice_new_batch_invoice_1 show ?thesis
    by blast
qed

section \<open>Constructing a line item\<close>




section \<open>Business rules: the two totals\<close>



section \<open>A batch is validated in input order\<close>

text \<open>
  Claim C2. \<open>validate_batch\<close> first clears the set of seen duplicate keys (its report does not
  depend on the keys the validator held before), then validates the records in input order:
  the report has one result per record, and the result at position \<open>i\<close> is what \<open>validate\<close>
  returns for record \<open>i\<close> after the records before it have been validated, in order, starting
  from the empty set.
\<close>

theorem validate_batch_in_order:
  "length (results (snd (validate_batch self invoices))) = length invoices \<and>
   (\<forall>i < length invoices.
      results (snd (validate_batch self invoices)) ! i =
        snd (validate
               (fold (\<lambda>data v. fst (validate v data)) (take i invoices)
                  (self\<lparr>seen_invoices := {}\<rparr>))
               (invoices ! i))) \<and>
   fst (validate_batch self invoices) =
     fold (\<lambda>data v. fst (validate v data)) invoices (self\<lparr>seen_invoices := {}\<rparr>) \<and>
   validate_batch self invoices = validate_batch (self\<lparr>seen_invoices := {}\<rparr>) invoices"
proof -
  let ?s = "self\<lparr>seen_invoices := {}\<rparr>"
  have r: "results (snd (validate_batch self invoices)) = fst (snd (batch_loop ?s invoices [] []))"
    by (simp add: validate_batch_def split_beta Let_def)
  have f: "fst (validate_batch self invoices) = fst (batch_loop ?s invoices [] [])"
    by (simp add: validate_batch_def split_beta Let_def)
  show ?thesis
    unfolding r f by (simp add: batch_loop_results batch_loop_state validate_batch_def)
qed

theorem validate_batch_in_order_witness:
  "length (results (snd (validate_batch
      \<lparr>seen_invoices = {(''INV-001'', ''Seller'', Some ''2024-01-15'')}\<rparr> demo_batch))) = 3 \<and>
   results (snd (validate_batch
      \<lparr>seen_invoices = {(''INV-001'', ''Seller'', Some ''2024-01-15'')}\<rparr> demo_batch)) ! 0 =
     \<lparr>invoice_id = PStr ''INV-001'', is_valid = True, errors = []\<rparr> \<and>
   results (snd (validate_batch
      \<lparr>seen_invoices = {(''INV-001'', ''Seller'', Some ''2024-01-15'')}\<rparr> demo_batch)) ! 1 =
     snd (validate \<lparr>seen_invoices = {(''INV-001'', ''Seller'', Some ''2024-01-15'')}\<rparr>
            batch_invoice_1)"
proof -
  let ?s = "\<lparr>seen_invoices = {(''INV-001'', ''Seller'', Some ''2024-01-15'')}\<rparr>"
  note t = validate_batch_in_order [of ?s demo_batch]
  from t have "length (results (snd (validate_batch ?s demo_batch))) = length demo_batch"
    by blast
  then have len: "length (results (snd (validate_batch ?s demo_batch))) = 3"
    by (simp add: demo_batch_def)
  from t have nth: "i < length demo_batch \<Longrightarrow>
      results (snd (validate_batch ?s demo_batch)) ! i =
        snd (validate
               (fold (\<lambda>data v. fst (validate v data)) (take i demo_batch)
                  (?s\<lparr>seen_invoices := {}\<rparr>))
               (demo_batch ! i))" for i
    by blast
  have 0: "results (snd (validate_batch ?s demo_batch)) ! 0 =
      \<lparr>invoice_id = PStr ''INV-001'', is_valid = True, errors = []\<rparr>"
    by (subst nth) (simp_all add: demo_batch_def validate_batch_invoice_1)
  have 1: "results (snd (validate_batch ?s demo_batch)) ! 1 =
      snd (validate ?s batch_invoice_1)"
    by (subst nth) (simp_all add: demo_batch_def validate_batch_invoice_1)
  from len 0 1 show ?thesis
    by blast
qed

section \<open>Duplicate detection\<close>

text \<open>
  Claim C3. The anomaly check emits \<open>anomaly_detected: duplicate_invoice\<close> exactly when the
  duplicate key (invoice number, seller name, invoice date as text or none) is already in the
  set of seen keys, and then leaves the set as it is; otherwise it inserts the key and emits
  nothing. Within one batch, a record that constructs is flagged exactly when an earlier
  record of the batch constructs with the same key: the first occurrence is never flagged,
  every later one is. After \<open>reset_duplicate_tracking\<close> the next record is not flagged.
\<close>

theorem duplicate_flag_second_and_later:
  "validate_anomalies self iv x =
     (if duplicate_key_of iv \<in> seen_invoices self then (self, [duplicate_error iv])
      else (self\<lparr>seen_invoices := insert (duplicate_key_of iv) (seen_invoices self)\<rparr>, [])) \<and>
   prefix ''anomaly_detected: duplicate_invoice'' (duplicate_error iv) \<and>
   duplicate_key_of iv =
     (invoice_number iv, seller_name iv, map_option isoformat (invoice_date iv)) \<and>
   (\<forall>i < length invoices. \<forall>a. Invoice_new (invoices ! i) = Inr a \<longrightarrow>
      ((\<exists>e \<in> set (errors (results (snd (validate_batch self invoices)) ! i)).
          prefix ''anomaly_detected: duplicate_invoice'' e) \<longleftrightarrow>
       (\<exists>j < i. \<exists>b. Invoice_new (invoices ! j) = Inr b \<and>
          duplicate_key_of b = duplicate_key_of a))) \<and>
   (\<forall>e \<in> set (errors (snd (validate (reset_duplicate_tracking self) d))).
      \<not> prefix ''anomaly_detected: duplicate_invoice'' e)"
proof (intro conjI allI impI)
  show "validate_anomalies self iv x =
     (if duplicate_key_of iv \<in> seen_invoices self then (self, [duplicate_error iv])
      else (self\<lparr>seen_invoices := insert (duplicate_key_of iv) (seen_invoices self)\<rparr>, []))"
    by (simp add: validate_anomalies_def Let_def)
  show "prefix ''anomaly_detected: duplicate_invoice'' (duplicate_error iv)"
    by (rule duplicate_error_prefix)
  show "duplicate_key_of iv =
     (invoice_number iv, seller_name iv, map_option isoformat (invoice_date iv))"
    by (simp add: duplicate_key_of_def split: option.splits)
next
  fix i a
  assume i: "i < length invoices" and a: "Invoice_new (invoices ! i) = Inr a"
  let ?s0 = "self\<lparr>seen_invoices := {}\<rparr>"
  let ?si = "fold (\<lambda>data v. fst (validate v data)) (take i invoices) ?s0"
  have r: "results (snd (validate_batch self invoices)) ! i = snd (validate ?si (invoices ! i))"
    using i by (simp add: validate_batch_def split_beta Let_def batch_loop_results)
  have seen: "seen_invoices ?si =
      {duplicate_key_of iv | iv d. d \<in> set (take i invoices) \<and> Invoice_new d = Inr iv}"
    by (simp add: fold_validate_seen)
  have "duplicate_key_of a \<in> seen_invoices ?si \<longleftrightarrow>
      (\<exists>j < i. \<exists>b. Invoice_new (invoices ! j) = Inr b \<and> duplicate_key_of b = duplicate_key_of a)"
  proof
    assume "duplicate_key_of a \<in> seen_invoices ?si"
    then obtain b d where d: "d \<in> set (take i invoices)" and b: "Invoice_new d = Inr b"
      and k: "duplicate_key_of a = duplicate_key_of b"
      unfolding seen by blast
    from d obtain j where "j < length (take i invoices)" "take i invoices ! j = d"
      by (auto simp: in_set_conv_nth)
    with i have "j < i" "invoices ! j = d" by auto
    with b k show "\<exists>j < i. \<exists>b. Invoice_new (invoices ! j) = Inr b \<and>
        duplicate_key_of b = duplicate_key_of a"
      by auto
  next
    assume "\<exists>j < i. \<exists>b. Invoice_new (invoices ! j) = Inr b \<and>
        duplicate_key_of b = duplicate_key_of a"
    then obtain j b where j: "j < i" and b: "Invoice_new (invoices ! j) = Inr b"
      and k: "duplicate_key_of b = duplicate_key_of a"
      by blast
    from j i have "invoices ! j \<in> set (take i invoices)"
      by (auto simp: in_set_conv_nth intro!: exI [of _ j])
    with b k [symmetric] show "duplicate_key_of a \<in> seen_invoices ?si"
      unfolding seen by (simp, blast)
  qed
  then show "(\<exists>e \<in> set (errors (results (snd (validate_batch self invoices)) ! i)).
          prefix ''anomaly_detected: duplicate_invoice'' e) \<longleftrightarrow>
       (\<exists>j < i. \<exists>b. Invoice_new (invoices ! j) = Inr b \<and>
          duplicate_key_of b = duplicate_key_of a)"
    unfolding r validate_flag_iff [OF a] .
next
  show "\<forall>e \<in> set (errors (snd (validate (reset_duplicate_tracking self) d))).
      \<not> prefix ''anomaly_detected: duplicate_invoice'' e"
  proof (cases "Invoice_new d")
    case (Inl e)
    then show ?thesis by (simp add: validate_def)
  next
    case (Inr a)
    from validate_flag_iff [OF Inr, of "reset_duplicate_tracking self"] show ?thesis
      by (simp add: reset_duplicate_tracking_def)
  qed
qed

theorem duplicate_flag_second_and_later_witness:
  "(1::nat) < length demo_batch \<and>
   Invoice_new (demo_batch ! 1) = Inr batch_invoice_1_object \<and>
   Invoice_new (demo_batch ! 0) = Inr batch_invoice_1_object \<and>
   (\<exists>e \<in> set (errors (results (snd (validate_batch \<lparr>seen_invoices = {}\<rparr> demo_batch)) ! 1)).
      prefix ''anomaly_detected: duplicate_invoice'' e) \<and>
   \<not> (\<exists>e \<in> set (errors (results (snd (validate_batch \<lparr>seen_invoices = {}\<rparr> demo_batch)) ! 0)).
      prefix ''anomaly_detected: duplicate_invoice'' e)"
proof -
  have l: "(1::nat) < length demo_batch" "(0::nat) < length demo_batch"
    by (simp_all add: demo_batch_def)
  have a: "Invoice_new (demo_batch ! 1) = Inr batch_invoice_1_object"
    and b: "Invoice_new (demo_batch ! 0) = Inr batch_invoice_1_object"
    by (simp_all add: demo_batch_def Invoice_new_batch_invoice_1)
  note t = duplicate_flag_second_and_later
    [of "\<lparr>seen_invoices = {}\<rparr>" batch_invoice_1_object PNone demo_batch batch_invoice_1]
  from t l(1) a
  have "(\<exists>e \<in> set (errors (results (snd (validate_batch \<lparr>seen_invoices = {}\<rparr> demo_batch)) ! 1)).
          prefix ''anomaly_detected: duplicate_invoice'' e) \<longleftrightarrow>
       (\<exists>j < 1. \<exists>b. Invoice_new (demo_batch ! j) = Inr b \<and>
          duplicate_key_of b = duplicate_key_of batch_invoice_1_object)"
    by blast
  with b have 1: "\<exists>e \<in> set (errors (results (snd (validate_batch \<lparr>seen_invoices = {}\<rparr> demo_batch)) ! 1)).
          prefix ''anomaly_detected: duplicate_invoice'' e"
    by auto
  from t l(2) b
  have "(\<exists>e \<in> set (errors (results (snd (validate_batch \<lparr>seen_invoices = {}\<rparr> demo_batch)) ! 0)).
          prefix ''anomaly_detected: duplicate_invoice'' e) \<longleftrightarrow>
       (\<exists>j < 0. \<exists>b. Invoice_new (demo_batch ! j) = Inr b \<and>
          duplicate_key_of b = duplicate_key_of batch_invoice_1_object)"
    by blast
  then have 0: "\<not> (\<exists>e \<in> set (errors (results (snd (validate_batch \<lparr>seen_invoices = {}\<rparr> demo_batch)) ! 0)).
          prefix ''anomaly_detected: duplicate_invoice'' e)"
    by simp
  from l a b 1 0 show ?thesis
    by blast
qed

section \<open>The batch summary\<close>

text \<open>
  Claim C4. For a batch of N records of which K get a non-empty error list, the summary has
  \<open>total_invoices = N\<close>, \<open>valid_invoices = N - K\<close> and \<open>invalid_invoices = K\<close>; \<open>error_counts\<close>
  has one entry per category that occurs, mapping it to the number of error strings of that
  category over all results, so that its counts add up to the number of error strings. The
  category of an error string is its text before the first colon, or \<open>unknown\<close> when it has
  no colon.
\<close>

theorem batch_summary_counts:
  "total_invoices (summary (snd (validate_batch self invoices))) = length invoices \<and>
   valid_invoices (summary (snd (validate_batch self invoices))) =
     length invoices -
     length (filter (\<lambda>r. errors r \<noteq> []) (results (snd (validate_batch self invoices)))) \<and>
   invalid_invoices (summary (snd (validate_batch self invoices))) =
     length (filter (\<lambda>r. errors r \<noteq> []) (results (snd (validate_batch self invoices)))) \<and>
   distinct (map fst (error_counts (summary (snd (validate_batch self invoices))))) \<and>
   (\<forall>c. map_of (error_counts (summary (snd (validate_batch self invoices)))) c =
      (if count_list
            (map error_type_of
               (concat (map errors (results (snd (validate_batch self invoices)))))) c = 0
       then None
       else Some (count_list
            (map error_type_of
               (concat (map errors (results (snd (validate_batch self invoices)))))) c))) \<and>
   sum_list (map snd (error_counts (summary (snd (validate_batch self invoices))))) =
     length (concat (map errors (results (snd (validate_batch self invoices))))) \<and>
   (\<forall>e. error_type_of e =
      (if CHR '':'' \<in> set e then takeWhile (\<lambda>c. c \<noteq> CHR '':'') e else ''unknown''))"
proof -
  let ?s = "self\<lparr>seen_invoices := {}\<rparr>"
  let ?rs = "results (snd (validate_batch self invoices))"
  let ?ec = "error_counts (summary (snd (validate_batch self invoices)))"
  let ?es = "concat (map errors ?rs)"
  have rs: "?rs = fst (snd (batch_loop ?s invoices [] []))"
    by (simp add: validate_batch_def split_beta Let_def)
  have len: "length ?rs = length invoices"
    by (simp add: rs batch_loop_results)
  have ec: "?ec = foldl (\<lambda>c error. counter_incr c (error_type_of error)) [] ?es"
    using batch_loop_counts [of ?s invoices "[]" "[]"]
    by (simp add: validate_batch_def split_beta Let_def)
  have valid: "filter is_valid ?rs = filter (\<lambda>r. \<not> errors r \<noteq> []) ?rs"
    by (rule filter_cong) (auto simp: batch_results_valid)
  have split: "length (filter (\<lambda>r. \<not> errors r \<noteq> []) ?rs) =
      length ?rs - length (filter (\<lambda>r. errors r \<noteq> []) ?rs)"
    using sum_length_filter_compl [of "\<lambda>r. errors r \<noteq> []" ?rs] by simp
  have 1: "total_invoices (summary (snd (validate_batch self invoices))) = length invoices"
    by (simp add: validate_batch_def split_beta Let_def)
  have v: "valid_invoices (summary (snd (validate_batch self invoices))) =
      length (filter is_valid ?rs)"
    by (simp add: validate_batch_def split_beta Let_def)
  have i: "invalid_invoices (summary (snd (validate_batch self invoices))) =
      length ?rs - length (filter is_valid ?rs)"
    by (simp add: validate_batch_def split_beta Let_def)
  have 2: "valid_invoices (summary (snd (validate_batch self invoices))) =
      length invoices - length (filter (\<lambda>r. errors r \<noteq> []) ?rs)"
    unfolding v valid split len ..
  have le: "length (filter (\<lambda>r. errors r \<noteq> []) ?rs) \<le> length invoices"
    using length_filter_le [of "\<lambda>r. errors r \<noteq> []" ?rs] by (simp only: len)
  have 3: "invalid_invoices (summary (snd (validate_batch self invoices))) =
      length (filter (\<lambda>r. errors r \<noteq> []) ?rs)"
    unfolding i valid split len using le by simp
  have 4: "distinct (map fst ?ec)"
    unfolding ec by (rule count_errors_distinct) simp
  have 5: "map_of ?ec c =
      (if count_list (map error_type_of ?es) c = 0 then None
       else Some (count_list (map error_type_of ?es) c))" for c
  proof (cases "map_of ?ec c")
    case None
    then have "c \<notin> fst ` set ?ec"
      by (simp add: map_of_eq_None_iff)
    then have "c \<notin> set (map error_type_of ?es)"
      unfolding ec count_errors_keys by simp
    then have "count_list (map error_type_of ?es) c = 0"
      using count_list_0_iff [of "map error_type_of ?es" c] by blast
    with None show ?thesis by simp
  next
    case (Some n)
    then have "c \<in> fst ` set ?ec"
      by (metis domI dom_map_of_conv_image_fst)
    then have "c \<in> set (map error_type_of ?es)"
      unfolding ec count_errors_keys by simp
    then have pos: "count_list (map error_type_of ?es) c \<noteq> 0"
      using count_list_0_iff [of "map error_type_of ?es" c] by blast
    from count_errors_count [of "[]" ?es c] Some
    have "n = count_list (map error_type_of ?es) c"
      unfolding ec [symmetric] by simp
    with Some pos show ?thesis by simp
  qed
  have 6: "sum_list (map snd ?ec) = length ?es"
    unfolding ec by (subst count_errors_sum) simp_all
  have 7: "\<forall>e. error_type_of e =
      (if CHR '':'' \<in> set e then takeWhile (\<lambda>c. c \<noteq> CHR '':'') e else ''unknown'')"
    by (simp add: error_type_of_def)
  from 1 2 3 4 5 6 7 show ?thesis
    by blast
qed

theorem batch_summary_counts_witness:
  "results (snd (validate_batch \<lparr>seen_invoices = {}\<rparr> demo_batch)) = demo_results \<and>
   total_invoices (summary (snd (validate_batch \<lparr>seen_invoices = {}\<rparr> demo_batch))) = 3 \<and>
   valid_invoices (summary (snd (validate_batch \<lparr>seen_invoices = {}\<rparr> demo_batch))) = 1 \<and>
   invalid_invoices (summary (snd (validate_batch \<lparr>seen_invoices = {}\<rparr> demo_batch))) = 2 \<and>
   map_of (error_counts (summary (snd (validate_batch \<lparr>seen_invoices = {}\<rparr> demo_batch))))
     ''schema_error'' = Some 1 \<and>
   map_of (error_counts (summary (snd (validate_batch \<lparr>seen_invoices = {}\<rparr> demo_batch))))
     ''missing_field'' = None \<and>
   sum_list (map snd
     (error_counts (summary (snd (validate_batch \<lparr>seen_invoices = {}\<rparr> demo_batch))))) = 2"
proof -
  have r: "results (snd (validate_batch \<lparr>seen_invoices = {}\<rparr> demo_batch)) = demo_results"
    by (simp add: validate_batch_demo)
  have n: "length demo_batch = 3"
    by (simp add: demo_batch_def)
  have k: "length (filter (\<lambda>r. errors r \<noteq> []) demo_results) = 2"
    by (simp add: demo_results_def)
  have es: "map error_type_of (concat (map errors demo_results)) =
      [''anomaly_detected'', ''schema_error'']"
    by (simp add: demo_results_def error_type_of_def)
  note t = batch_summary_counts [of "\<lparr>seen_invoices = {}\<rparr>" demo_batch, unfolded r n k es]
  from t have "map_of (error_counts (summary (snd (validate_batch \<lparr>seen_invoices = {}\<rparr> demo_batch))))
     ''schema_error'' = Some 1"
    by simp
  moreover from t have "map_of (error_counts (summary (snd (validate_batch \<lparr>seen_invoices = {}\<rparr> demo_batch))))
     ''missing_field'' = None"
    by simp
  moreover from t have "sum_list (map snd
     (error_counts (summary (snd (validate_batch \<lparr>seen_invoices = {}\<rparr> demo_batch))))) = 2"
    by (simp add: demo_results_def)
  ultimately show ?thesis
    using t r by simp
qed
section \<open>The generic amount extractor\<close>

text \<open>
  Claim C9. For every text and pattern list, \<open>extract_amount\<close> removes the commas from the
  text captured by a pattern before it parses the number; when the parse succeeds that number
  is returned, and when it fails the loop goes on with the next pattern, as it does when a
  pattern does not match. With patterns whose first group takes part in every match, the
  extractor returns: none exactly when no pattern's capture parses, and otherwise the number
  of the first pattern, in list order, whose capture parses. With no pattern list it uses
  \<open>AMOUNT_PATTERNS\<close>.
\<close>

theorem extract_amount_skips_unparseable:
  "(\<forall>p rest m s v. p text = Some m \<and> group1 m = Inr s \<and> py_float B (replace_commas s) = Some v \<longrightarrow>
      extract_amount P B text (Some (p # rest)) = Inr (Some v)) \<and>
   (\<forall>p rest m s. p text = Some m \<and> group1 m = Inr s \<and> py_float B (replace_commas s) = None \<longrightarrow>
      extract_amount P B text (Some (p # rest)) = extract_amount P B text (Some rest)) \<and>
   (\<forall>p rest. p text = None \<longrightarrow>
      extract_amount P B text (Some (p # rest)) = extract_amount P B text (Some rest)) \<and>
   (patterns_capture ps text \<longrightarrow>
      (\<exists>r. extract_amount P B text (Some ps) = Inr r) \<and>
      (extract_amount P B text (Some ps) = Inr None \<longleftrightarrow>
         (\<forall>p \<in> set ps. \<forall>m s. p text = Some m \<and> group1 m = Inr s \<longrightarrow>
            py_float B (replace_commas s) = None)) \<and>
      (\<forall>v. extract_amount P B text (Some ps) = Inr (Some v) \<longleftrightarrow>
         (\<exists>before p after m s. ps = before @ p # after \<and> p text = Some m \<and> group1 m = Inr s \<and>
            py_float B (replace_commas s) = Some v \<and>
            (\<forall>q \<in> set before. \<forall>m' s'. q text = Some m' \<and> group1 m' = Inr s' \<longrightarrow>
               py_float B (replace_commas s') = None)))) \<and>
   extract_amount P B text None = extract_amount P B text (Some (AMOUNT_PATTERNS P))"
proof (intro conjI allI impI)
  show "\<exists>r. extract_amount P B text (Some ps) = Inr r" if "patterns_capture ps text"
    using amount_loop_total [OF that] by (simp add: extract_amount_def)
  show "extract_amount P B text (Some ps) = Inr None \<longleftrightarrow>
         (\<forall>p \<in> set ps. \<forall>m s. p text = Some m \<and> group1 m = Inr s \<longrightarrow>
            py_float B (replace_commas s) = None)" if "patterns_capture ps text"
    using amount_loop_None_iff [OF that] by (simp add: extract_amount_def)
  show "extract_amount P B text (Some ps) = Inr (Some v) \<longleftrightarrow>
         (\<exists>before p after m s. ps = before @ p # after \<and> p text = Some m \<and> group1 m = Inr s \<and>
            py_float B (replace_commas s) = Some v \<and>
            (\<forall>q \<in> set before. \<forall>m' s'. q text = Some m' \<and> group1 m' = Inr s' \<longrightarrow>
               py_float B (replace_commas s') = None))" if "patterns_capture ps text" for v
    using amount_loop_Some_iff [OF that] by (simp add: extract_amount_def)
qed (auto simp: extract_amount_def Let_def)

theorem extract_amount_skips_unparseable_witness:
  "label_pattern ''Total: '' demo_amount_text = Some (Match [Some ''n/a''] 10) \<and>
   group1 (Match [Some ''n/a''] 10) = Inr ''n/a'' \<and>
   py_float demo_builtins (replace_commas ''n/a'') = None \<and>
   label_pattern ''Due: '' demo_amount_text = Some (Match [Some ''1,234.50''] 24) \<and>
   group1 (Match [Some ''1,234.50''] 24) = Inr ''1,234.50'' \<and>
   replace_commas ''1,234.50'' = ''1234.50'' \<and>
   py_float demo_builtins (replace_commas ''1,234.50'') = Some 1234.5 \<and>
   extract_amount demo_tables demo_builtins demo_amount_text
     (Some [label_pattern ''Total: '', label_pattern ''Due: '']) = Inr (Some 1234.5)"
proof -
  have 1: "label_pattern ''Total: '' demo_amount_text = Some (Match [Some ''n/a''] 10)"
    and 2: "label_pattern ''Due: '' demo_amount_text = Some (Match [Some ''1,234.50''] 24)"
    by (simp_all add: label_pattern_def demo_amount_text_def)
  have 3: "group1 (Match [Some ''n/a''] 10) = Inr ''n/a''"
    and 4: "group1 (Match [Some ''1,234.50''] 24) = Inr ''1,234.50''"
    by (simp_all add: group1_def)
  have 5: "py_float demo_builtins (replace_commas ''n/a'') = None"
    by (simp add: demo_builtins_def decimal_float_def replace_commas_def digit_val_def)
  have 6: "replace_commas ''1,234.50'' = ''1234.50''"
    by (simp add: replace_commas_def)
  have 7: "py_float demo_builtins (replace_commas ''1,234.50'') = Some 1234.5"
    by (simp add: demo_builtins_def decimal_float_def replace_commas_def digit_val_def)
  note t = extract_amount_skips_unparseable [of demo_amount_text demo_builtins demo_tables "[]"]
  have "extract_amount demo_tables demo_builtins demo_amount_text
      (Some [label_pattern ''Total: '', label_pattern ''Due: '']) =
    extract_amount demo_tables demo_builtins demo_amount_text (Some [label_pattern ''Due: ''])"
    using t [THEN conjunct2, THEN conjunct1] 1 3 5 by blast
  also have "\<dots> = Inr (Some 1234.5)"
    using t [THEN conjunct1] 2 4 7 by blast
  finally have "extract_amount demo_tables demo_builtins demo_amount_text
      (Some [label_pattern ''Total: '', label_pattern ''Due: '']) = Inr (Some 1234.5)" .
  with 1 2 3 4 5 6 7 show ?thesis
    by (intro conjI)
qed

section \<open>The assembled record\<close>

text \<open>
  Claim C7. For every text, \<open>extract_invoice_from_text\<close> returns a record and raises nothing;
  the record has every field of the Invoice data model (and \<open>invoice_id\<close> when a non-empty
  identifier was passed). The invoice number is a non-empty text, \<open>UNKNOWN\<close> when no pattern
  matched; each date is none or an ISO date, none when no pattern matched or the parser
  failed; the seller and buyer names are the empty text when unmatched; the currency is
  \<open>USD\<close> when unmatched; the three totals are 0 when unmatched; the line items are a list,
  empty when none was extracted.

  This is proved of the code of the repository under what it takes from its libraries: the
  first group of each pattern takes part in its matches, and on the texts captured as dates
  the date parser raises only what \<open>parse_date\<close> catches.
\<close>

theorem extract_invoice_from_text_total:
  assumes "tables_capture P text"
    and "\<forall>s. extract_date P text None = Inr (Some s) \<or> extract_due_date P text = Inr (Some s) \<longrightarrow>
           parser_raises_caught B s"
  shows "\<exists>r. extract_invoice_from_text P B text inv_id = Inr r \<and>
     map fst r =
       invoice_field_names @
       (case inv_id of None \<Rightarrow> [] | Some i \<Rightarrow> if i = [] then [] else [''invoice_id'']) \<and>
     (\<exists>s. map_of r ''invoice_number'' = Some (PStr s) \<and> s \<noteq> [] \<and>
          (extract_invoice_number P text = Inr None \<longrightarrow> s = ''UNKNOWN'')) \<and>
     (\<exists>v. map_of r ''invoice_date'' = Some v \<and> (v = PNone \<or> (\<exists>d. v = PStr (isoformat d))) \<and>
          (extract_date P text None = Inr None \<longrightarrow> v = PNone) \<and>
          (\<forall>s e. extract_date P text None = Inr (Some s) \<and> dateutil_parse B s = Inl e \<longrightarrow>
             v = PNone)) \<and>
     (\<exists>v. map_of r ''due_date'' = Some v \<and> (v = PNone \<or> (\<exists>d. v = PStr (isoformat d))) \<and>
          (extract_due_date P text = Inr None \<longrightarrow> v = PNone) \<and>
          (\<forall>s e. extract_due_date P text = Inr (Some s) \<and> dateutil_parse B s = Inl e \<longrightarrow>
             v = PNone)) \<and>
     (\<exists>s. map_of r ''seller_name'' = Some (PStr s) \<and>
          (extract_seller_name P text = Inr None \<longrightarrow> s = [])) \<and>
     (\<exists>s. map_of r ''buyer_name'' = Some (PStr s) \<and>
          (extract_buyer_name P text = Inr None \<longrightarrow> s = [])) \<and>
     (\<exists>s. map_of r ''currency'' = Some (PStr s) \<and> s \<noteq> [] \<and>
          (extract_currency P text = Inr None \<longrightarrow> s = ''USD'')) \<and>
     (\<exists>x. map_of r ''net_total'' = Some (PNum x) \<and>
          (extract_net_total P B text = Inr None \<longrightarrow> x = 0)) \<and>
     (\<exists>x. map_of r ''tax_amount'' = Some (PNum x) \<and>
          (extract_tax_amount P B text = Inr None \<longrightarrow> x = 0)) \<and>
     (\<exists>x. map_of r ''gross_total'' = Some (PNum x) \<and>
          (extract_gross_total P B text = Inr None \<longrightarrow> x = 0)) \<and>
     (\<exists>xs. map_of r ''line_items'' = Some (PList xs) \<and>
          (extract_line_items P B text = [] \<longrightarrow> xs = []))"
proof -
  from assms(1) have cap:
    "patterns_capture (INVOICE_NUMBER_PATTERNS P) text"
    "patterns_capture (DATE_PATTERNS P) text"
    "patterns_capture (DUE_DATE_PATTERNS P) text"
    "patterns_capture (SELLER_PATTERNS P) text"
    "patterns_capture (BUYER_PATTERNS P) text"
    "patterns_capture (ADDRESS_PATTERNS P) text"
    "patterns_capture (TAX_ID_PATTERNS P) text"
    "patterns_capture (CURRENCY_PATTERNS P) text"
    "patterns_capture (NET_TOTAL_PATTERNS P) text"
    "patterns_capture (TAX_AMOUNT_PATTERNS P) text"
    "patterns_capture (GROSS_TOTAL_PATTERNS P) text"
    by (simp_all add: tables_capture_def)
  obtain number where number: "extract_invoice_number P text = Inr number"
    using first_group_total [OF cap(1)] by (auto simp: extract_invoice_number_def)
  obtain ds where ds: "extract_date P text None = Inr ds"
    using first_group_total [OF cap(2)] by (auto simp: extract_date_def)
  obtain dds where dds: "extract_due_date P text = Inr dds"
    using first_group_total [OF cap(3)] by (auto simp: extract_due_date_def extract_date_def)
  obtain seller where seller: "extract_seller_name P text = Inr seller"
    using first_group_total [OF cap(4)] by (auto simp: extract_seller_name_def)
  obtain buyer where buyer: "extract_buyer_name P text = Inr buyer"
    using first_group_total [OF cap(5)] by (auto simp: extract_buyer_name_def)
  obtain addr where addr: "extract_address P text = Inr addr"
    using first_group_total [OF cap(6)] by (auto simp: extract_address_def)
  obtain taxid where taxid: "extract_tax_id P text = Inr taxid"
    using first_group_total [OF cap(7)] by (auto simp: extract_tax_id_def)
  obtain cur where cur: "extract_currency P text = Inr cur"
    using extract_currency_total [OF cap(8)] by auto
  obtain net where net: "extract_net_total P B text = Inr net"
    using amount_loop_total [OF cap(9)] by (auto simp: extract_net_total_def extract_amount_def)
  obtain tax where tax: "extract_tax_amount P B text = Inr tax"
    using amount_loop_total [OF cap(10)]
    by (auto simp: extract_tax_amount_def extract_amount_def)
  obtain gross where gross: "extract_gross_total P B text = Inr gross"
    using amount_loop_total [OF cap(11)]
    by (auto simp: extract_gross_total_def extract_amount_def)
  obtain idate where idate: "parse_date_if B ds = Inr idate"
    and idate_form: "idate = PNone \<or> (\<exists>d. idate = PStr (isoformat d))"
    and idate_none: "ds = None \<longrightarrow> idate = PNone"
    and idate_fail: "\<forall>s e. ds = Some s \<and> dateutil_parse B s = Inl e \<longrightarrow> idate = PNone"
    using parse_date_if_total [of ds B] assms(2) ds by blast
  obtain due where due: "parse_date_if B dds = Inr due"
    and due_form: "due = PNone \<or> (\<exists>d. due = PStr (isoformat d))"
    and due_none: "dds = None \<longrightarrow> due = PNone"
    and due_fail: "\<forall>s e. dds = Some s \<and> dateutil_parse B s = Inl e \<longrightarrow> due = PNone"
    using parse_date_if_total [of dds B] assms(2) dds by blast
  let ?data = "[(''invoice_number'', PStr (str_or number ''UNKNOWN'')),
               (''invoice_date'', idate),
               (''due_date'', due),
               (''seller_name'', PStr (str_or seller '''')),
               (''seller_address'', opt_str_val addr),
               (''seller_tax_id'', opt_str_val taxid),
               (''buyer_name'', PStr (str_or buyer '''')),
               (''buyer_address'', PNone),
               (''buyer_tax_id'', PNone),
               (''currency'', PStr (str_or cur ''USD'')),
               (''net_total'', PNum (float_or_zero net)),
               (''tax_amount'', PNum (float_or_zero tax)),
               (''gross_total'', PNum (float_or_zero gross)),
               (''line_items'', PList (map assemble_item (extract_line_items P B text)))]"
  let ?extra = "(case inv_id of None \<Rightarrow> [] | Some i \<Rightarrow> if i = [] then [] else [(''invoice_id'', PStr i)])"
  have r: "extract_invoice_from_text P B text inv_id = Inr (?data @ ?extra)"
    by (simp add: extract_invoice_from_text_def number ds dds seller buyer addr taxid cur net
        tax gross idate due Let_def split: option.splits)
  have keys: "map fst (?data @ ?extra) =
       invoice_field_names @
       (case inv_id of None \<Rightarrow> [] | Some i \<Rightarrow> if i = [] then [] else [''invoice_id''])"
    by (simp add: invoice_field_names_def split: option.splits)
  have look: "map_of (?data @ ?extra) k = map_of ?data k"
    if "k \<in> set invoice_field_names" for k
    using that by (auto simp: invoice_field_names_def map_add_def split: option.splits)
  have n1: "str_or number ''UNKNOWN'' \<noteq> []" "number = None \<longrightarrow> str_or number ''UNKNOWN'' = ''UNKNOWN''"
    by (auto simp: str_or_def split: option.splits)
  have n2: "seller = None \<longrightarrow> str_or seller '''' = []" "buyer = None \<longrightarrow> str_or buyer '''' = []"
    by (auto simp: str_or_def)
  have n3: "str_or cur ''USD'' \<noteq> []" "cur = None \<longrightarrow> str_or cur ''USD'' = ''USD''"
    by (auto simp: str_or_def split: option.splits)
  have n4: "net = None \<longrightarrow> float_or_zero net = 0" "tax = None \<longrightarrow> float_or_zero tax = 0"
    "gross = None \<longrightarrow> float_or_zero gross = 0"
    by (auto simp: float_or_zero_def)
  show ?thesis
    unfolding r number ds dds seller buyer cur net tax gross
    apply (intro exI [of _ "?data @ ?extra"] conjI refl keys)
    subgoal using n1 by (subst look) (simp_all add: invoice_field_names_def)
    subgoal using idate_form idate_none idate_fail by (subst look) (simp_all add: invoice_field_names_def)
    subgoal using due_form due_none due_fail by (subst look) (simp_all add: invoice_field_names_def)
    subgoal using n2 by (subst look) (simp_all add: invoice_field_names_def)
    subgoal using n2 by (subst look) (simp_all add: invoice_field_names_def)
    subgoal using n3 by (subst look) (simp_all add: invoice_field_names_def)
    subgoal using n4 by (subst look) (simp_all add: invoice_field_names_def)
    subgoal using n4 by (subst look) (simp_all add: invoice_field_names_def)
    subgoal using n4 by (subst look) (simp_all add: invoice_field_names_def)
    subgoal by (subst look) (simp_all add: invoice_field_names_def)
    done
qed

theorem extract_invoice_from_text_total_witness:
  "tables_capture demo_tables demo_text \<and>
   extract_date demo_tables demo_text None = Inr (Some ''2024-01-15'') \<and>
   parser_raises_caught demo_builtins ''2024-01-15'' \<and>
   extract_due_date demo_tables demo_text = Inr None \<and>
   (\<exists>r. extract_invoice_from_text demo_tables demo_builtins demo_text (Some ''doc-1'') = Inr r \<and>
        map fst r = invoice_field_names @ [''invoice_id'']) \<and>
   extract_invoice_from_text demo_tables demo_builtins demo_text (Some ''doc-1'') =
     Inr [(''invoice_number'', PStr ''INV-7''), (''invoice_date'', PStr ''2024-01-15''),
          (''due_date'', PNone), (''seller_name'', PStr ''Acme''), (''seller_address'', PNone),
          (''seller_tax_id'', PNone), (''buyer_name'', PStr []), (''buyer_address'', PNone),
          (''buyer_tax_id'', PNone), (''currency'', PStr ''USD''), (''net_total'', PNum 0),
          (''tax_amount'', PNum 0), (''gross_total'', PNum 38.5), (''line_items'', PList []),
          (''invoice_id'', PStr ''doc-1'')]"
proof -
  have d: "extract_date demo_tables demo_text None = Inr (Some ''2024-01-15'')"
    and dd: "extract_due_date demo_tables demo_text = Inr None"
    by (simp_all add: extract_defs demo_tables_def demo_text_def label_pattern_def strip_def
        is_space_def)
  have h: "\<forall>s. extract_date demo_tables demo_text None = Inr (Some s) \<or>
      extract_due_date demo_tables demo_text = Inr (Some s) \<longrightarrow>
      parser_raises_caught demo_builtins s"
    by (simp add: demo_parser_raises_caught)
  from extract_invoice_from_text_total [OF demo_tables_capture h, of "Some ''doc-1''"]
  have "\<exists>r. extract_invoice_from_text demo_tables demo_builtins demo_text (Some ''doc-1'') = Inr r \<and>
      map fst r = invoice_field_names @
       (case Some ''doc-1'' of None \<Rightarrow> [] | Some i \<Rightarrow> if i = [] then [] else [''invoice_id''])"
    by (elim exE conjE) (rule exI, rule conjI, assumption, assumption)
  then have "\<exists>r. extract_invoice_from_text demo_tables demo_builtins demo_text (Some ''doc-1'') = Inr r \<and>
        map fst r = invoice_field_names @ [''invoice_id'']"
    by simp
  with demo_tables_capture [of demo_text] d dd
    demo_parser_raises_caught [of "''2024-01-15''"] extract_demo_text
  show ?thesis
    by (intro conjI)
qed

end
